theory Spec2Isabelle
  imports Main "HOL-Library.Word"
begin

unbundle bit_operations_syntax

section \<open>Server entries\<close>

text \<open>
  The entry type \<open>GrpcLbServer\<close> is declared in the load-balancer API header, which is
  not among the sources at hand; its fields are the ones \<open>grpclb.cc\<close> reads:
  \<open>ip_size\<close> and \<open>port\<close> (32-bit signed integers), the fixed-size character arrays
  \<open>ip_addr\<close> and \<open>load_balance_token\<close>, and the flag \<open>drop\<close> (here \<open>drop_entry\<close>,
  since \<open>drop\<close> is a list function of HOL). An array is the list of its cells.
\<close>

record GrpcLbServer =
  ip_size :: "32 word"
  ip_addr :: "8 word list"
  port :: "32 word"
  load_balance_token :: "char list"
  drop_entry :: bool

text \<open>
  \<open>IsServerValid(server, idx, log)\<close>: the index and the flag only feed the log lines.
  The port is a signed 32-bit integer, so \<open>>> 16\<close> is the arithmetic shift.
\<close>

definition IsServerValid :: "GrpcLbServer \<Rightarrow> nat \<Rightarrow> bool \<Rightarrow> bool" where
  "IsServerValid server idx log =
     (if drop_entry server then False
      else if signed_drop_bit 16 (port server) \<noteq> 0 then False
      else if ip_size server \<noteq> 4 \<and> ip_size server \<noteq> 16 then False
      else True)"

text \<open>
  A resolved address: the zeroed buffer that \<open>memset\<close> leaves, or an IPv4 / IPv6 socket
  address holding the copied address bytes and the port in network byte order.
\<close>

datatype grpc_resolved_address =
    Zeroed
  | SockaddrIn "8 word list" "8 word list"
  | SockaddrIn6 "8 word list" "8 word list"

definition grpc_htons :: "16 word \<Rightarrow> 8 word list" where
  "grpc_htons p = [ucast (drop_bit 8 p), ucast p]"

definition ParseServer :: "GrpcLbServer \<Rightarrow> grpc_resolved_address" where
  "ParseServer server =
     (if drop_entry server then Zeroed
      else let netorder_port = grpc_htons (ucast (port server)) in
        if ip_size server = 4 then SockaddrIn (take 4 (ip_addr server)) netorder_port
        else if ip_size server = 16 then SockaddrIn6 (take 16 (ip_addr server)) netorder_port
        else Zeroed)"

section \<open>Channel arguments and endpoints\<close>

text \<open>
  A client-stats object is known by its identity (its address); a null pointer is
  \<open>None\<close>. \<open>TokenAndClientStatsArg\<close> is the per-address decoration.
\<close>

type_synonym stats_ref = nat

record TokenAndClientStatsArg =
  arg_lb_token :: "char list"
  arg_client_stats :: "stats_ref option"

text \<open>
  Channel arguments are a dictionary. The keys the policy names through macros are
  constructors; \<open>TokenAndClientStatsArg_ChannelArgName\<close> is the key under which
  \<open>SetObject\<close> and \<open>GetObject\<close> keep a \<open>TokenAndClientStatsArg\<close>.
\<close>

datatype arg_key =
    GRPC_ARG_ADDRESS_IS_BACKEND_FROM_GRPCLB_LOAD_BALANCER
  | GRPC_ARG_GRPCLB_ENABLE_LOAD_REPORTING_FILTER
  | GRPC_ARG_INHIBIT_HEALTH_CHECKING
  | GRPC_ARG_GRPCLB_BALANCER_ADDRESSES
  | TokenAndClientStatsArg_ChannelArgName
  | OtherArg "char list"

datatype arg_value =
    IntArg int
  | StringArg "char list"
  | AddressListArg "grpc_resolved_address list"
  | TokenAndClientStatsObject TokenAndClientStatsArg

type_synonym ChannelArgs = "arg_key \<rightharpoonup> arg_value"

definition SetObject :: "TokenAndClientStatsArg \<Rightarrow> ChannelArgs \<Rightarrow> ChannelArgs" where
  "SetObject obj a = a(TokenAndClientStatsArg_ChannelArgName \<mapsto> TokenAndClientStatsObject obj)"

definition GetObject :: "ChannelArgs \<Rightarrow> TokenAndClientStatsArg option" where
  "GetObject a =
     (case a TokenAndClientStatsArg_ChannelArgName of
        Some (TokenAndClientStatsObject obj) \<Rightarrow> Some obj
      | _ \<Rightarrow> None)"

record EndpointAddresses =
  addresses :: "grpc_resolved_address list"
  endpoint_args :: ChannelArgs

section \<open>Serverlist\<close>

record Serverlist =
  serverlist :: "GrpcLbServer list"
  drop_index :: "64 word"

definition strnlen :: "char list \<Rightarrow> nat \<Rightarrow> nat" where
  "strnlen s n = length (takeWhile (\<lambda>c. c \<noteq> CHR 0x00) (take n s))"

text \<open>
  \<open>AddressIterator::ForEach\<close>: the loop over the indices of the entry vector; the
  result is the sequence of endpoints handed to the callback, in call order.
\<close>

fun ForEach_from :: "nat \<Rightarrow> GrpcLbServer list \<Rightarrow> stats_ref option \<Rightarrow> EndpointAddresses list" where
  "ForEach_from i [] client_stats = []"
| "ForEach_from i (server # rest) client_stats =
     (if \<not> IsServerValid server i False then ForEach_from (Suc i) rest client_stats
      else
        let addr = ParseServer server;
            lb_token_length = strnlen (load_balance_token server) (length (load_balance_token server));
            lb_token = take lb_token_length (load_balance_token server)
        in \<lparr>addresses = [addr],
            endpoint_args = SetObject \<lparr>arg_lb_token = lb_token, arg_client_stats = client_stats\<rparr> Map.empty\<rparr>
           # ForEach_from (Suc i) rest client_stats)"

definition AddressIterator_ForEach :: "Serverlist \<Rightarrow> stats_ref option \<Rightarrow> EndpointAddresses list" where
  "AddressIterator_ForEach sl client_stats = ForEach_from 0 (serverlist sl) client_stats"

text \<open>
  \<open>Serverlist::operator==\<close> compares the two entry vectors with the vector equality
  of the standard library: equal sizes and pairwise equal entries. The equality of
  two entries is an operator of \<open>GrpcLbServer\<close>, defined outside the sources at hand:
  it is the parameter \<open>entry_eq\<close>.
\<close>

definition Serverlist_eq ::
  "(GrpcLbServer \<Rightarrow> GrpcLbServer \<Rightarrow> bool) \<Rightarrow> Serverlist \<Rightarrow> Serverlist \<Rightarrow> bool" where
  "Serverlist_eq entry_eq a b =
     (length (serverlist a) = length (serverlist b) \<and>
      list_all (\<lambda>(x, y). entry_eq x y) (zip (serverlist a) (serverlist b)))"

definition ContainsAllDropEntries :: "Serverlist \<Rightarrow> bool" where
  "ContainsAllDropEntries sl =
     (if serverlist sl = [] then False else list_all drop_entry (serverlist sl))"

text \<open>
  \<open>ShouldDrop\<close>: the token is returned as a pointer to the entry's token array, so a
  null result is \<open>None\<close> and any other result is the array. \<open>drop_index_\<close> is a
  \<open>size_t\<close>: \<open>fetch_add\<close> wraps at \<open>2 ^ 64\<close>.
\<close>

definition ShouldDrop :: "Serverlist \<Rightarrow> char list option \<times> Serverlist" where
  "ShouldDrop sl =
     (if serverlist sl = [] then (None, sl)
      else
        let index = drop_index sl;
            sl' = sl\<lparr>drop_index := index + 1\<rparr>;
            server = serverlist sl ! (unat index mod length (serverlist sl))
        in (if drop_entry server then Some (load_balance_token server) else None, sl'))"

section \<open>Client statistics\<close>

text \<open>
  Modelled from the spec: the class \<open>GrpcLbClientStats\<close>, declared outside the sources
  at hand. The spec gives it counters and a token-to-drop-count map;
  \<open>AddCallStarted\<close> adds one to the started counter and \<open>AddCallDropped\<close> adds one to
  the count of its token. The objects live in a store indexed by their identity.

  \<open>AddCallDropped\<close> takes the token as a bare \<open>const char*\<close> and so reads a C string,
  up to the first NUL. The picker hands it the pointer that \<open>ShouldDrop\<close> returns, a
  pointer to the token array of the entry. When the array holds a NUL, the string is
  the cells before it (\<open>read_c_string\<close> gives it). When the array holds none, the read
  runs past the end of the array and the key that is counted depends on the memory
  behind the array, which the model does not hold: \<open>read_c_string\<close> is \<open>None\<close> and so
  is the store after the call.
\<close>

record GrpcLbClientStats =
  num_calls_started :: nat
  drop_token_counts :: "char list \<rightharpoonup> nat"

type_synonym stats_store = "stats_ref \<Rightarrow> GrpcLbClientStats"

text \<open>
  The cells of an array before its first NUL, all of them when it holds none: what a
  read bounded by the size of the array (\<open>strnlen\<close>) sees.
\<close>

definition c_str :: "char list \<Rightarrow> char list" where
  "c_str a = takeWhile (\<lambda>c. c \<noteq> CHR 0x00) a"

definition read_c_string :: "char list \<Rightarrow> char list option" where
  "read_c_string a =
     (if CHR 0x00 \<in> set a then Some (takeWhile (\<lambda>c. c \<noteq> CHR 0x00) a) else None)"

definition AddCallDropped :: "stats_ref \<Rightarrow> char list \<Rightarrow> stats_store \<Rightarrow> stats_store option" where
  "AddCallDropped cs token st =
     (case read_c_string token of
        None \<Rightarrow> None
      | Some key \<Rightarrow>
          Some (st(cs := (st cs)\<lparr>drop_token_counts :=
                  (drop_token_counts (st cs))(key \<mapsto>
                     (case drop_token_counts (st cs) key of None \<Rightarrow> 1 | Some n \<Rightarrow> Suc n))\<rparr>)))"

definition AddCallStarted :: "stats_ref \<Rightarrow> stats_store \<Rightarrow> stats_store" where
  "AddCallStarted cs st = st(cs := (st cs)\<lparr>num_calls_started := Suc (num_calls_started (st cs))\<rparr>)"

section \<open>Picker\<close>

text \<open>
  A subchannel of the transport is known by its identity. The child policy's
  subchannels are the wrappers that \<open>Helper::CreateSubchannel\<close> returns.
\<close>

type_synonym subchannel_ref = nat

record SubchannelWrapper =
  wrapped_subchannel :: subchannel_ref
  lb_token :: "char list"
  wrapper_client_stats :: "stats_ref option"

datatype absl_Status =
    OkStatus
  | UnavailableError "char list"
  | OtherError "char list"

text \<open>
  A call tracker is the one the child installed (known by its identity) or the
  picker's \<open>SubchannelCallTracker\<close> around the original one, holding a stats reference.
\<close>

datatype call_tracker =
    ChildCallTracker nat
  | SubchannelCallTracker stats_ref "call_tracker option"

text \<open>
  A metadata value is a slice of bytes, or the stats pointer that the picker passes as
  a zero-length slice. \<open>metadata_mutations\<close> is the sequence of \<open>Set\<close> calls.
\<close>

datatype metadata_value =
    SliceValue "char list"
  | StatsPointerValue stats_ref

record 'sc CompletePick =
  subchannel :: 'sc
  subchannel_call_tracker :: "call_tracker option"
  metadata_mutations :: "(char list \<times> metadata_value) list"

datatype 'sc PickResult =
    Complete "'sc CompletePick"
  | Queue
  | Fail absl_Status
  | Drop absl_Status

text \<open>
  Modelled from the spec: the metadata keys \<open>LbTokenMetadata::key()\<close> and
  \<open>GrpcLbClientStatsMetadata::key()\<close>, constants of the metadata header.
\<close>

definition LbTokenMetadata_key :: "char list" where
  "LbTokenMetadata_key = ''lb-token''"

definition GrpcLbClientStatsMetadata_key :: "char list" where
  "GrpcLbClientStatsMetadata_key = ''grpclb-client-stats''"

record 'a Picker =
  picker_serverlist :: "Serverlist option"
  child_picker :: "'a \<Rightarrow> SubchannelWrapper PickResult"
  picker_client_stats :: "stats_ref option"

text \<open>
  \<open>Picker::Pick\<close>. The serverlist is shared and its \<open>drop_index_\<close> is mutated by
  \<open>ShouldDrop\<close>, and the stats objects are mutated through their pointers: the pick
  returns its result, the serverlist as the picker then sees it, and the stats store
  (\<open>None\<close> when \<open>AddCallDropped\<close> read a token past the end of its array).
\<close>

definition Pick ::
  "'a Picker \<Rightarrow> 'a \<Rightarrow> stats_store \<Rightarrow> subchannel_ref PickResult \<times> Serverlist option \<times> stats_store option" where
  "Pick p pick_args st =
     (let (drop_token, sl') =
            (case picker_serverlist p of
               None \<Rightarrow> (None, None)
             | Some sl \<Rightarrow> (fst (ShouldDrop sl), Some (snd (ShouldDrop sl))))
      in case drop_token of
           Some token \<Rightarrow>
             (Drop (UnavailableError ''drop directed by grpclb balancer''), sl',
              (case picker_client_stats p of
                 None \<Rightarrow> Some st
               | Some cs \<Rightarrow> AddCallDropped cs token st))
         | None \<Rightarrow>
             (case child_picker p pick_args of
                Complete complete_pick \<Rightarrow>
                  (let subchannel_wrapper = subchannel complete_pick;
                       (tracker, mutations, st1) =
                         (case wrapper_client_stats subchannel_wrapper of
                            Some client_stats \<Rightarrow>
                              (Some (SubchannelCallTracker client_stats
                                       (subchannel_call_tracker complete_pick)),
                               metadata_mutations complete_pick @
                                 [(GrpcLbClientStatsMetadata_key, StatsPointerValue client_stats)],
                               AddCallStarted client_stats st)
                          | None \<Rightarrow>
                              (subchannel_call_tracker complete_pick,
                               metadata_mutations complete_pick, st));
                       mutations' =
                         (if lb_token subchannel_wrapper \<noteq> []
                          then mutations @ [(LbTokenMetadata_key, SliceValue (lb_token subchannel_wrapper))]
                          else mutations)
                   in (Complete \<lparr>subchannel = wrapped_subchannel subchannel_wrapper,
                                  subchannel_call_tracker = tracker,
                                  metadata_mutations = mutations'\<rparr>, sl', Some st1))
              | Queue \<Rightarrow> (Queue, sl', Some st)
              | Fail status \<Rightarrow> (Fail status, sl', Some st)
              | Drop status \<Rightarrow> (Drop status, sl', Some st)))"

section \<open>Endpoint iterators\<close>

text \<open>
  The endpoint iterators the policy handles: the resolver's own (the sequence it
  yields), the serverlist's \<open>AddressIterator\<close> and the \<open>NullLbTokenEndpointIterator\<close>
  around a parent iterator. \<open>ForEach\<close> is the sequence handed to the callback.
\<close>

datatype EndpointAddressesIterator =
    EndpointList "EndpointAddresses list"
  | AddressIterator Serverlist "stats_ref option"
  | NullLbTokenEndpointIterator EndpointAddressesIterator

definition empty_token :: TokenAndClientStatsArg where
  "empty_token = \<lparr>arg_lb_token = [], arg_client_stats = None\<rparr>"

fun ForEach :: "EndpointAddressesIterator \<Rightarrow> EndpointAddresses list" where
  "ForEach (EndpointList xs) = xs"
| "ForEach (AddressIterator sl client_stats) = AddressIterator_ForEach sl client_stats"
| "ForEach (NullLbTokenEndpointIterator parent_it) =
     map (\<lambda>endpoint. \<lparr>addresses = addresses endpoint,
                       endpoint_args = SetObject empty_token (endpoint_args endpoint)\<rparr>)
         (ForEach parent_it)"

definition GetServerAddressList :: "Serverlist \<Rightarrow> stats_ref option \<Rightarrow> EndpointAddressesIterator" where
  "GetServerAddressList sl client_stats = AddressIterator sl client_stats"

definition EndpointIteratorIsEmpty :: "EndpointAddressesIterator \<Rightarrow> bool" where
  "EndpointIteratorIsEmpty endpoints = (ForEach endpoints = [])"

section \<open>The policy and the balancer call\<close>

type_synonym call_ref = nat
type_synonym Duration = int

text \<open>A failed \<open>CHECK\<close>, a call of \<open>Crash\<close> or the use of a null pointer ends the process.\<close>

datatype crash = CheckFailed | NullDereference | Crashed

definition seq :: "crash + 'a \<Rightarrow> ('a \<Rightarrow> crash + 'c) \<Rightarrow> crash + 'c" where
  "seq r f = (case r of Inl e \<Rightarrow> Inl e | Inr x \<Rightarrow> f x)"

datatype grpc_connectivity_state =
    GRPC_CHANNEL_IDLE
  | GRPC_CHANNEL_CONNECTING
  | GRPC_CHANNEL_READY
  | GRPC_CHANNEL_TRANSIENT_FAILURE
  | GRPC_CHANNEL_SHUTDOWN

record GrpcLbConfig =
  cfg_child_policy :: "char list"
  cfg_service_name :: "char list"

text \<open>
  \<open>UpdateArgs\<close> of a load-balancing policy: for the policy itself the configuration is
  a \<open>GrpcLbConfig\<close> (null: \<open>None\<close>), for the child it is the child's configuration.
\<close>

record 'cfg UpdateArgs =
  update_addresses :: "absl_Status + EndpointAddressesIterator"
  update_config :: 'cfg
  update_resolution_note :: "char list"
  update_args :: ChannelArgs

record BalancerCallState =
  seen_initial_response :: bool
  seen_serverlist :: bool
  client_stats :: "stats_ref option"
  client_stats_report_interval :: Duration

datatype GrpcLbResponse =
    INITIAL Duration
  | SERVERLIST "GrpcLbServer list"
  | FALLBACK

text \<open>
  What the policy does to its collaborators (the child policy, the event engine, the
  balancer channel and call, the parent helper), in the order it does it.
\<close>

datatype effect =
    ChildPolicyCreated ChannelArgs
  | ChildPolicyUpdate "(char list) UpdateArgs"
  | ChildPolicyReset
  | FallbackTimerStarted Duration
  | FallbackTimerCancelled
  | ConnectivityWatcherAdded
  | ConnectivityWatcherRemoved
  | BalancerChannelCreated "char list"
  | BalancerChannelReset
  | BalancerAddressesPushed "grpc_resolved_address list"
  | BalancerCallStarted call_ref "char list"
  | BalancerCallOrphaned call_ref
  | BalancerMessageRequested call_ref
  | ClientLoadReportScheduled call_ref Duration
  | RetryTimerStarted Duration
  | RetryTimerCancelled
  | ReresolutionRequested
  | ParentStateUpdated grpc_connectivity_state absl_Status "Serverlist option" nat "stats_ref option"

text \<open>
  The policy object. The balancer calls are objects of their own: \<open>calls\<close> is the
  store of their states and \<open>lb_calld\<close> the current one, if any. The backoff
  controller is a class outside the sources at hand; its state is of the type \<open>'b\<close>.
  The subchannel cache and the channelz linkage are left out.
\<close>

record 'b GrpcLb =
  config :: "GrpcLbConfig option"
  args :: ChannelArgs
  shutting_down :: bool
  lb_channel :: "char list option"
  lb_calld :: "call_ref option"
  calls :: "call_ref \<Rightarrow> BalancerCallState"
  next_call :: call_ref
  next_stats :: stats_ref
  lb_call_backoff :: 'b
  lb_call_retry_timer_handle :: "Duration option"
  lb_serverlist :: "Serverlist option"
  fallback_mode :: bool
  fallback_backend_addresses :: "absl_Status + EndpointAddressesIterator"
  resolution_note :: "char list"
  fallback_at_startup_timeout :: Duration
  fallback_at_startup_checks_pending :: bool
  lb_fallback_timer_handle :: "Duration option"
  child_policy :: bool
  child_policy_ready :: bool
  effects :: "effect list"

text \<open>
  What the sources at hand use and do not define: the equality of two server
  entries, the backoff controller's \<open>NextAttemptDelay\<close> and \<open>Reset\<close>, the parser of a
  balancer response and the authority of the parent channel.
\<close>

record 'b externals =
  entry_eq :: "GrpcLbServer \<Rightarrow> GrpcLbServer \<Rightarrow> bool"
  NextAttemptDelay :: "'b \<Rightarrow> Duration \<times> 'b"
  Reset :: "'b \<Rightarrow> 'b"
  GrpcLbResponseParse :: "8 word list \<Rightarrow> GrpcLbResponse option"
  GetAuthority :: "char list"

definition emit :: "effect \<Rightarrow> 'b GrpcLb \<Rightarrow> 'b GrpcLb" where
  "emit e s = s\<lparr>effects := effects s @ [e]\<rparr>"

definition CancelBalancerChannelConnectivityWatchLocked :: "'b GrpcLb \<Rightarrow> crash + 'b GrpcLb" where
  "CancelBalancerChannelConnectivityWatchLocked s =
     (case lb_channel s of
        None \<Rightarrow> Inl NullDereference
      | Some ch \<Rightarrow> Inr (emit ConnectivityWatcherRemoved s))"

text \<open>\<open>GetEventEngine()->Cancel(*lb_fallback_timer_handle_)\<close>.\<close>

definition CancelFallbackTimer :: "'b GrpcLb \<Rightarrow> crash + 'b GrpcLb" where
  "CancelFallbackTimer s =
     (case lb_fallback_timer_handle s of
        None \<Rightarrow> Inl NullDereference
      | Some h \<Rightarrow> Inr (emit FallbackTimerCancelled s))"

definition CreateChildPolicyArgsLocked :: "'b GrpcLb \<Rightarrow> bool \<Rightarrow> ChannelArgs" where
  "CreateChildPolicyArgsLocked s is_backend_from_grpclb_load_balancer =
     (let r = (args s)
            (GRPC_ARG_ADDRESS_IS_BACKEND_FROM_GRPCLB_LOAD_BALANCER \<mapsto>
               IntArg (if is_backend_from_grpclb_load_balancer then 1 else 0),
             GRPC_ARG_GRPCLB_ENABLE_LOAD_REPORTING_FILTER \<mapsto> IntArg 1)
      in if is_backend_from_grpclb_load_balancer
         then r(GRPC_ARG_INHIBIT_HEALTH_CHECKING \<mapsto> IntArg 1) else r)"

definition CreateOrUpdateChildPolicyLocked :: "'b GrpcLb \<Rightarrow> crash + 'b GrpcLb" where
  "CreateOrUpdateChildPolicyLocked s =
     (if shutting_down s then Inr s
      else
        seq (if fallback_mode s
             then Inr (fallback_backend_addresses s,
                       (case fallback_backend_addresses s of
                          Inr it \<Rightarrow>
                            if EndpointIteratorIsEmpty it
                            then ''grpclb in fallback mode without any fallback addresses: ''
                                   @ resolution_note s
                            else []
                        | Inl st \<Rightarrow> []),
                       False)
             else (case lb_serverlist s of
                     None \<Rightarrow> Inl NullDereference
                   | Some sl \<Rightarrow>
                       let it = GetServerAddressList sl
                                  (case lb_calld s of None \<Rightarrow> None
                                   | Some c \<Rightarrow> client_stats (calls s c))
                       in Inr (Inr it,
                               if EndpointIteratorIsEmpty it
                               then ''empty serverlist from grpclb balancer'' else [],
                               True)))
          (\<lambda>(addrs, note, is_backend_from_grpclb_load_balancer).
             let child_args = CreateChildPolicyArgsLocked s is_backend_from_grpclb_load_balancer
             in if child_args = Map.empty then Inl CheckFailed
                else (case config s of
                        None \<Rightarrow> Inl NullDereference
                      | Some cfg \<Rightarrow>
                          let update = \<lparr>update_addresses = addrs,
                                        update_config = cfg_child_policy cfg,
                                        update_resolution_note = note,
                                        update_args = child_args\<rparr>;
                              s1 = (if child_policy s then s
                                    else emit (ChildPolicyCreated child_args) (s\<lparr>child_policy := True\<rparr>))
                          in Inr (emit (ChildPolicyUpdate update) s1))))"

definition initial_call :: BalancerCallState where
  "initial_call = \<lparr>seen_initial_response = False, seen_serverlist = False,
                    client_stats = None, client_stats_report_interval = 0\<rparr>"

text \<open>
  \<open>StartBalancerCallLocked\<close>, with the constructor of \<open>BalancerCallState\<close> (which reads
  the service name of the configuration) and \<open>StartQuery\<close>.
\<close>

definition StartBalancerCallLocked :: "'b externals \<Rightarrow> 'b GrpcLb \<Rightarrow> crash + 'b GrpcLb" where
  "StartBalancerCallLocked ext s =
     (if lb_channel s = None then Inl CheckFailed
      else if shutting_down s then Inr s
      else if lb_calld s \<noteq> None then Inl CheckFailed
      else (case config s of
              None \<Rightarrow> Inl NullDereference
            | Some cfg \<Rightarrow>
                let c = next_call s;
                    name = (if cfg_service_name cfg = [] then GetAuthority ext
                            else cfg_service_name cfg)
                in Inr (emit (BalancerCallStarted c name)
                         (s\<lparr>lb_calld := Some c,
                            calls := (calls s)(c := initial_call),
                            next_call := Suc c\<rparr>))))"

definition StartBalancerCallRetryTimerLocked :: "'b externals \<Rightarrow> 'b GrpcLb \<Rightarrow> 'b GrpcLb" where
  "StartBalancerCallRetryTimerLocked ext s =
     (let delay = fst (NextAttemptDelay ext (lb_call_backoff s));
          s1 = s\<lparr>lb_call_backoff := snd (NextAttemptDelay ext (lb_call_backoff s))\<rparr>
      in emit (RetryTimerStarted delay) (s1\<lparr>lb_call_retry_timer_handle := Some delay\<rparr>))"

definition OnBalancerCallRetryTimerLocked :: "'b externals \<Rightarrow> 'b GrpcLb \<Rightarrow> crash + 'b GrpcLb" where
  "OnBalancerCallRetryTimerLocked ext s =
     (let s1 = s\<lparr>lb_call_retry_timer_handle := None\<rparr>
      in if \<not> shutting_down s1 \<and> lb_calld s1 = None
         then StartBalancerCallLocked ext s1 else Inr s1)"

definition MaybeEnterFallbackModeAfterStartup :: "'b GrpcLb \<Rightarrow> crash + 'b GrpcLb" where
  "MaybeEnterFallbackModeAfterStartup s =
     (if \<not> fallback_mode s \<and> \<not> fallback_at_startup_checks_pending s \<and>
         (case lb_calld s of None \<Rightarrow> True | Some c \<Rightarrow> \<not> seen_serverlist (calls s c)) \<and>
         \<not> child_policy_ready s
      then CreateOrUpdateChildPolicyLocked (s\<lparr>fallback_mode := True\<rparr>)
      else Inr s)"

definition OnFallbackTimerLocked :: "'b GrpcLb \<Rightarrow> crash + 'b GrpcLb" where
  "OnFallbackTimerLocked s =
     (if fallback_at_startup_checks_pending s \<and> \<not> shutting_down s
      then seq (CancelBalancerChannelConnectivityWatchLocked
                  (s\<lparr>fallback_at_startup_checks_pending := False\<rparr>))
             (\<lambda>s1. CreateOrUpdateChildPolicyLocked (s1\<lparr>fallback_mode := True\<rparr>))
      else Inr s)"

text \<open>\<open>StateWatcher::OnConnectivityStateChange\<close>.\<close>

definition OnConnectivityStateChange ::
  "grpc_connectivity_state \<Rightarrow> 'b GrpcLb \<Rightarrow> crash + 'b GrpcLb" where
  "OnConnectivityStateChange new_state s =
     (if fallback_at_startup_checks_pending s \<and> new_state = GRPC_CHANNEL_TRANSIENT_FAILURE
      then seq (CancelFallbackTimer (s\<lparr>fallback_at_startup_checks_pending := False\<rparr>))
             (\<lambda>s1. seq (CreateOrUpdateChildPolicyLocked (s1\<lparr>fallback_mode := True\<rparr>))
                      CancelBalancerChannelConnectivityWatchLocked)
      else Inr s)"

section \<open>The child policy's helper\<close>

text \<open>
  \<open>Helper::CreateSubchannel\<close>: \<open>sc\<close> is the subchannel that the parent helper creates
  for the address. A null result is \<open>None\<close>.
\<close>

definition CreateSubchannel ::
  "'b GrpcLb \<Rightarrow> subchannel_ref \<Rightarrow> grpc_resolved_address \<Rightarrow> ChannelArgs \<Rightarrow>
   crash + SubchannelWrapper option" where
  "CreateSubchannel s sc address per_address_args =
     (if shutting_down s then Inr None
      else (case GetObject per_address_args of
              None \<Rightarrow> Inl Crashed
            | Some arg \<Rightarrow>
                Inr (Some \<lparr>wrapped_subchannel = sc, lb_token = arg_lb_token arg,
                           wrapper_client_stats = arg_client_stats arg\<rparr>)))"

text \<open>\<open>Helper::UpdateState\<close>; the child's picker is known by its identity.\<close>

definition UpdateState ::
  "grpc_connectivity_state \<Rightarrow> absl_Status \<Rightarrow> nat \<Rightarrow> 'b GrpcLb \<Rightarrow> crash + 'b GrpcLb" where
  "UpdateState state status picker s =
     (if shutting_down s then Inr s
      else
        seq (MaybeEnterFallbackModeAfterStartup
               (s\<lparr>child_policy_ready := (state = GRPC_CHANNEL_READY)\<rparr>))
          (\<lambda>s1.
             let sl = (if state = GRPC_CHANNEL_READY \<or>
                          (case lb_serverlist s1 of None \<Rightarrow> False
                           | Some l \<Rightarrow> ContainsAllDropEntries l)
                       then lb_serverlist s1 else None);
                 stats = (case lb_calld s1 of None \<Rightarrow> None
                          | Some c \<Rightarrow> client_stats (calls s1 c))
             in Inr (emit (ParentStateUpdated state status sl picker stats) s1)))"

definition RequestReresolution :: "'b GrpcLb \<Rightarrow> 'b GrpcLb" where
  "RequestReresolution s =
     (if shutting_down s then s
      else if \<not> fallback_mode s then s
      else emit ReresolutionRequested s)"

section \<open>Events of the balancer call\<close>

text \<open>
  \<open>OnBalancerMessageReceivedLocked\<close> on the call \<open>this\<close>; \<open>recv_message_payload\<close> is
  the payload the transport left in the call (null: \<open>None\<close>).
\<close>

definition OnSERVERLIST ::
  "'b externals \<Rightarrow> call_ref \<Rightarrow> GrpcLbServer list \<Rightarrow> 'b GrpcLb \<Rightarrow> crash + 'b GrpcLb" where
  "OnSERVERLIST ext this entries s =
     (let serverlist_wrapper = \<lparr>serverlist = entries, drop_index = 0\<rparr>;
          s1 = s\<lparr>calls := (calls s)(this := (calls s this)\<lparr>seen_serverlist := True\<rparr>)\<rparr>;
          s2 = (if client_stats_report_interval (calls s1 this) > 0 \<and>
                   client_stats (calls s1 this) = None
                then emit (ClientLoadReportScheduled this
                             (client_stats_report_interval (calls s1 this)))
                       (s1\<lparr>calls := (calls s1)
                               (this := (calls s1 this)\<lparr>client_stats := Some (next_stats s1)\<rparr>),
                           next_stats := Suc (next_stats s1)\<rparr>)
                else s1)
      in if (case lb_serverlist s2 of None \<Rightarrow> False
             | Some cur \<Rightarrow> Serverlist_eq (entry_eq ext) cur serverlist_wrapper)
         then Inr s2
         else
           let s3 = (if fallback_mode s2 then s2\<lparr>fallback_mode := False\<rparr> else s2)
           in seq (if fallback_at_startup_checks_pending s3
                   then seq (CancelFallbackTimer
                               (s3\<lparr>fallback_at_startup_checks_pending := False\<rparr>))
                          CancelBalancerChannelConnectivityWatchLocked
                   else Inr s3)
                (\<lambda>s4. CreateOrUpdateChildPolicyLocked
                         (s4\<lparr>lb_serverlist := Some serverlist_wrapper\<rparr>)))"

definition OnFALLBACK :: "'b GrpcLb \<Rightarrow> crash + 'b GrpcLb" where
  "OnFALLBACK s =
     (if \<not> fallback_mode s
      then seq (if fallback_at_startup_checks_pending s
                then seq (CancelFallbackTimer
                            (s\<lparr>fallback_at_startup_checks_pending := False\<rparr>))
                       CancelBalancerChannelConnectivityWatchLocked
                else Inr s)
             (\<lambda>s1. seq (CreateOrUpdateChildPolicyLocked (s1\<lparr>fallback_mode := True\<rparr>))
                      (\<lambda>s2. Inr (s2\<lparr>lb_serverlist := None\<rparr>)))
      else Inr s)"

definition OnINITIAL :: "call_ref \<Rightarrow> Duration \<Rightarrow> 'b GrpcLb \<Rightarrow> 'b GrpcLb" where
  "OnINITIAL this interval s =
     (let calld = calls s this;
          calld1 = (if interval \<noteq> 0
                    then calld\<lparr>client_stats_report_interval := max 1000 interval\<rparr>
                    else calld)
      in s\<lparr>calls := (calls s)(this := calld1\<lparr>seen_initial_response := True\<rparr>)\<rparr>)"

definition OnBalancerMessageReceivedLocked ::
  "'b externals \<Rightarrow> call_ref \<Rightarrow> 8 word list option \<Rightarrow> 'b GrpcLb \<Rightarrow> crash + 'b GrpcLb" where
  "OnBalancerMessageReceivedLocked ext this recv_message_payload s =
     (if Some this \<noteq> lb_calld s \<or> recv_message_payload = None then Inr s
      else
        seq (case GrpcLbResponseParse ext (the recv_message_payload) of
               None \<Rightarrow> Inr s
             | Some (INITIAL interval) \<Rightarrow>
                 if seen_initial_response (calls s this) then Inr s
                 else Inr (OnINITIAL this interval s)
             | Some (SERVERLIST entries) \<Rightarrow> OnSERVERLIST ext this entries s
             | Some FALLBACK \<Rightarrow> OnFALLBACK s)
          (\<lambda>s1. if \<not> shutting_down s1 then Inr (emit (BalancerMessageRequested this) s1)
                else Inr s1))"

text \<open>\<open>OnBalancerStatusReceivedLocked\<close> on the call \<open>this\<close>.\<close>

definition OnBalancerStatusReceivedLocked ::
  "'b externals \<Rightarrow> call_ref \<Rightarrow> 'b GrpcLb \<Rightarrow> crash + 'b GrpcLb" where
  "OnBalancerStatusReceivedLocked ext this s =
     (if Some this = lb_calld s
      then
        let s1 = emit (BalancerCallOrphaned this) (s\<lparr>lb_calld := None\<rparr>)
        in seq (if fallback_at_startup_checks_pending s1
                then if seen_serverlist (calls s1 this) then Inl CheckFailed
                     else seq (CancelFallbackTimer
                                 (s1\<lparr>fallback_at_startup_checks_pending := False\<rparr>))
                            (\<lambda>s2. seq (CancelBalancerChannelConnectivityWatchLocked s2)
                                     (\<lambda>s3. CreateOrUpdateChildPolicyLocked
                                              (s3\<lparr>fallback_mode := True\<rparr>)))
                else MaybeEnterFallbackModeAfterStartup s1)
             (\<lambda>s4. if shutting_down s4 then Inl CheckFailed
                    else
                      let s5 = emit ReresolutionRequested s4
                      in if seen_initial_response (calls s5 this)
                         then StartBalancerCallLocked ext
                                (s5\<lparr>lb_call_backoff := Reset ext (lb_call_backoff s5)\<rparr>)
                         else Inr (StartBalancerCallRetryTimerLocked ext s5))
      else Inr s)"

section \<open>Update and shutdown\<close>

text \<open>
  \<open>ExtractBalancerAddresses\<close> reads the balancer addresses from the channel
  arguments through a function defined outside the sources at hand; here they are
  the address list under the key \<open>GRPC_ARG_GRPCLB_BALANCER_ADDRESSES\<close>.
\<close>

definition ExtractBalancerAddresses :: "ChannelArgs \<Rightarrow> grpc_resolved_address list" where
  "ExtractBalancerAddresses a =
     (case a GRPC_ARG_GRPCLB_BALANCER_ADDRESSES of
        Some (AddressListArg endpoints) \<Rightarrow> endpoints
      | _ \<Rightarrow> [])"

text \<open>
  \<open>UpdateBalancerChannelLocked\<close>. The channel arguments built for the balancer
  channel and its credentials are not part of the model; the creation of the channel
  is taken to succeed.
\<close>

definition UpdateBalancerChannelLocked ::
  "'b externals \<Rightarrow> 'b GrpcLb \<Rightarrow> absl_Status \<times> 'b GrpcLb" where
  "UpdateBalancerChannelLocked ext s =
     (let balancer_addresses = ExtractBalancerAddresses (args s);
          status = (if balancer_addresses = []
                    then UnavailableError ''balancer address list must be non-empty''
                    else OkStatus);
          s1 = (if lb_channel s = None
                then let uri_str = ''fake:///'' @ GetAuthority ext
                     in emit (BalancerChannelCreated uri_str) (s\<lparr>lb_channel := Some uri_str\<rparr>)
                else s)
      in (status, emit (BalancerAddressesPushed balancer_addresses) s1))"

definition UpdateLocked ::
  "'b externals \<Rightarrow> (GrpcLbConfig option) UpdateArgs \<Rightarrow> 'b GrpcLb \<Rightarrow>
   crash + absl_Status \<times> 'b GrpcLb" where
  "UpdateLocked ext update s =
     (let is_initial_update = (lb_channel s = None)
      in if update_config update = None then Inl CheckFailed
         else
           let s1 = s\<lparr>config := update_config update,
                      args := update_args update,
                      fallback_backend_addresses :=
                        (case update_addresses update of
                           Inl st \<Rightarrow> Inl st
                         | Inr it \<Rightarrow> Inr (NullLbTokenEndpointIterator it)),
                      resolution_note := update_resolution_note update\<rparr>;
               status = fst (UpdateBalancerChannelLocked ext s1);
               s2 = snd (UpdateBalancerChannelLocked ext s1)
           in seq (if child_policy s2 then CreateOrUpdateChildPolicyLocked s2 else Inr s2)
                (\<lambda>s3. if is_initial_update
                       then
                         let s4 = emit (FallbackTimerStarted (fallback_at_startup_timeout s3))
                                    (s3\<lparr>fallback_at_startup_checks_pending := True,
                                        lb_fallback_timer_handle :=
                                          Some (fallback_at_startup_timeout s3)\<rparr>)
                         in (case lb_channel s4 of
                               None \<Rightarrow> Inl NullDereference
                             | Some ch \<Rightarrow>
                                 seq (StartBalancerCallLocked ext (emit ConnectivityWatcherAdded s4))
                                   (\<lambda>s5. Inr (status, s5)))
                       else Inr (status, s3)))"

definition ShutdownLocked :: "'b GrpcLb \<Rightarrow> crash + 'b GrpcLb" where
  "ShutdownLocked s =
     (let s1 = (case lb_calld s of
                  None \<Rightarrow> s\<lparr>shutting_down := True\<rparr>
                | Some c \<Rightarrow> emit (BalancerCallOrphaned c)
                             (s\<lparr>shutting_down := True, lb_calld := None\<rparr>));
          s2 = (if lb_call_retry_timer_handle s1 \<noteq> None then emit RetryTimerCancelled s1 else s1)
      in seq (if fallback_at_startup_checks_pending s2
              then seq (CancelFallbackTimer (s2\<lparr>fallback_at_startup_checks_pending := False\<rparr>))
                     CancelBalancerChannelConnectivityWatchLocked
              else Inr s2)
           (\<lambda>s3.
              let s4 = (if child_policy s3
                        then emit ChildPolicyReset (s3\<lparr>child_policy := False\<rparr>) else s3)
              in Inr (if lb_channel s4 \<noteq> None
                      then emit BalancerChannelReset (s4\<lparr>lb_channel := None\<rparr>) else s4)))"

section \<open>The policy as a transition system\<close>

text \<open>
  The policy right after its constructor (\<open>fallback_backend_addresses_\<close> is a
  default \<open>StatusOr\<close>, which holds an error status), and the callbacks that the work
  serializer runs on it. A callback runs only when something can have scheduled it: the retry
  timer's when its handle is set, the child's state update when there is a child,
  and an update comes with a configuration.
\<close>

definition new_policy :: "'b \<Rightarrow> Duration \<Rightarrow> 'b GrpcLb" where
  "new_policy backoff timeout =
     \<lparr>config = None, args = Map.empty, shutting_down = False, lb_channel = None,
      lb_calld = None, calls = (\<lambda>c. initial_call), next_call = 0, next_stats = 0,
      lb_call_backoff = backoff, lb_call_retry_timer_handle = None, lb_serverlist = None,
      fallback_mode = False, fallback_backend_addresses = Inl (OtherError []),
      resolution_note = [], fallback_at_startup_timeout = timeout,
      fallback_at_startup_checks_pending = False, lb_fallback_timer_handle = None,
      child_policy = False, child_policy_ready = False, effects = []\<rparr>"

datatype event =
    Update "(GrpcLbConfig option) UpdateArgs"
  | Shutdown
  | BalancerMessageReceived call_ref "8 word list option"
  | BalancerStatusReceived call_ref
  | FallbackTimer
  | BalancerCallRetryTimer
  | ChildStateUpdate grpc_connectivity_state absl_Status nat
  | BalancerChannelStateChange grpc_connectivity_state

fun enabled :: "event \<Rightarrow> 'b GrpcLb \<Rightarrow> bool" where
  "enabled (Update update) s = (update_config update \<noteq> None)"
| "enabled BalancerCallRetryTimer s = (lb_call_retry_timer_handle s \<noteq> None)"
| "enabled (ChildStateUpdate state status picker) s = child_policy s"
| "enabled ev s = True"

fun step :: "'b externals \<Rightarrow> event \<Rightarrow> 'b GrpcLb \<Rightarrow> crash + 'b GrpcLb" where
  "step ext (Update update) s = seq (UpdateLocked ext update s) (\<lambda>r. Inr (snd r))"
| "step ext Shutdown s = ShutdownLocked s"
| "step ext (BalancerMessageReceived c payload) s = OnBalancerMessageReceivedLocked ext c payload s"
| "step ext (BalancerStatusReceived c) s = OnBalancerStatusReceivedLocked ext c s"
| "step ext FallbackTimer s = OnFallbackTimerLocked s"
| "step ext BalancerCallRetryTimer s = OnBalancerCallRetryTimerLocked ext s"
| "step ext (ChildStateUpdate state status picker) s = UpdateState state status picker s"
| "step ext (BalancerChannelStateChange state) s = OnConnectivityStateChange state s"

inductive reachable :: "'b externals \<Rightarrow> 'b GrpcLb \<Rightarrow> bool" for ext :: "'b externals" where
  reachable_new: "reachable ext (new_policy backoff timeout)"
| reachable_step: "reachable ext s \<Longrightarrow> enabled ev s \<Longrightarrow> step ext ev s = Inr s' \<Longrightarrow> reachable ext s'"

text \<open>
  A run of callbacks from a state: its final state, when every callback was
  enabled where it ran and none of them ended the process.
\<close>

fun run :: "'b externals \<Rightarrow> event list \<Rightarrow> 'b GrpcLb \<Rightarrow> 'b GrpcLb option" where
  "run ext [] s = Some s"
| "run ext (ev # evs) s =
     (if enabled ev s
      then (case step ext ev s of Inl e \<Rightarrow> None | Inr s' \<Rightarrow> run ext evs s')
      else None)"

section \<open>Invariant and observations\<close>

text \<open>
  What holds of the policy between any two callbacks: a current balancer call
  implies a balancer channel, a configuration and no shutdown; pending startup
  checks imply a balancer channel, a fallback timer handle and a configuration, and,
  unless the policy is shutting down, no serverlist yet, neither on the policy nor
  seen by the current call; a policy that was never updated has no serverlist; a
  child policy implies a configuration, no shutdown and a source of addresses
  (fallback mode or a serverlist); an armed retry timer implies a balancer channel
  and a configuration, or a shutdown.
\<close>

definition policy_inv :: "'b GrpcLb \<Rightarrow> bool" where
  "policy_inv s =
     ((lb_calld s \<noteq> None \<longrightarrow> lb_channel s \<noteq> None \<and> \<not> shutting_down s \<and> config s \<noteq> None) \<and>
      (fallback_at_startup_checks_pending s \<longrightarrow>
         lb_channel s \<noteq> None \<and> lb_fallback_timer_handle s \<noteq> None \<and> config s \<noteq> None) \<and>
      (fallback_at_startup_checks_pending s \<and> \<not> shutting_down s \<longrightarrow>
         lb_serverlist s = None \<and>
         (\<forall>c. lb_calld s = Some c \<longrightarrow> \<not> seen_serverlist (calls s c))) \<and>
      (lb_channel s = None \<and> \<not> shutting_down s \<longrightarrow> lb_serverlist s = None) \<and>
      (child_policy s \<longrightarrow>
         (fallback_mode s \<or> lb_serverlist s \<noteq> None) \<and> config s \<noteq> None \<and> \<not> shutting_down s) \<and>
      (lb_call_retry_timer_handle s \<noteq> None \<longrightarrow>
         (lb_channel s \<noteq> None \<and> config s \<noteq> None) \<or> shutting_down s))"

text \<open>A callback that returns, and in a state where the invariant holds.\<close>

definition good :: "crash + 'b GrpcLb \<Rightarrow> bool" where
  "good r = (case r of Inl e \<Rightarrow> False | Inr s \<Rightarrow> policy_inv s)"

text \<open>The updates handed to the child policy, in order, among the effects.\<close>

fun child_updates :: "effect list \<Rightarrow> (char list) UpdateArgs list" where
  "child_updates [] = []"
| "child_updates (ChildPolicyUpdate u # es) = u # child_updates es"
| "child_updates (e # es) = child_updates es"

text \<open>The endpoints that an update hands to the child policy.\<close>

definition update_endpoints :: "(char list) UpdateArgs \<Rightarrow> EndpointAddresses list" where
  "update_endpoints u = (case update_addresses u of Inl st \<Rightarrow> [] | Inr it \<Rightarrow> ForEach it)"

text \<open>
  What a callback other than an update or a shutdown leaves as it was: the shutdown
  flag, the balancer channel, the fallback addresses; and it never sets the flag of
  the pending startup checks.
\<close>

definition quiet :: "'b GrpcLb \<Rightarrow> 'b GrpcLb \<Rightarrow> bool" where
  "quiet s s' =
     (shutting_down s' = shutting_down s \<and> lb_channel s' = lb_channel s \<and>
      fallback_backend_addresses s' = fallback_backend_addresses s \<and>
      (fallback_at_startup_checks_pending s' \<longrightarrow> fallback_at_startup_checks_pending s))"

text \<open>An update for the child whose endpoints all carry a \<open>TokenAndClientStatsArg\<close>.\<close>

definition carries_token_and_stats :: "(char list) UpdateArgs \<Rightarrow> bool" where
  "carries_token_and_stats u =
     list_all (\<lambda>e. GetObject (endpoint_args e) \<noteq> None) (update_endpoints u)"

text \<open>
  The fallback addresses are an error status or sit behind a
  \<open>NullLbTokenEndpointIterator\<close>, as the type of the field says in the source.
\<close>

definition fallback_wrapped :: "'b GrpcLb \<Rightarrow> bool" where
  "fallback_wrapped s =
     (case fallback_backend_addresses s of
        Inl st \<Rightarrow> True
      | Inr (NullLbTokenEndpointIterator parent_it) \<Rightarrow> True
      | Inr other \<Rightarrow> False)"

section \<open>Example inputs\<close>

text \<open>
  A toy wire format for the examples: the first byte of a message is its kind
  (0: INITIAL, 1: SERVERLIST, 2: FALLBACK), each further byte of a serverlist is one
  entry, a drop entry when it is zero.
\<close>

definition example_server :: "8 word \<Rightarrow> GrpcLbServer" where
  "example_server b =
     \<lparr>ip_size = 4, ip_addr = [10, 0, 0, b], port = 443,
      load_balance_token = [CHR ''t'', CHR 0x00], drop_entry = (b = 0)\<rparr>"

fun example_parse :: "8 word list \<Rightarrow> GrpcLbResponse option" where
  "example_parse [] = None"
| "example_parse (k # bs) =
     (if k = 0 then Some (INITIAL (int (length bs) * 1000))
      else if k = 1 then Some (SERVERLIST (map example_server bs))
      else if k = 2 then Some FALLBACK
      else None)"

definition example_externals :: "nat externals" where
  "example_externals =
     \<lparr>entry_eq = (=), NextAttemptDelay = (\<lambda>b. (1000 * 2 ^ b, Suc b)), Reset = (\<lambda>b. 0),
      GrpcLbResponseParse = example_parse, GetAuthority = ''lb.example.com''\<rparr>"

definition example_update :: "(GrpcLbConfig option) UpdateArgs" where
  "example_update =
     \<lparr>update_addresses =
        Inr (EndpointList [\<lparr>addresses = [SockaddrIn [192, 0, 2, 1] [1, 187]],
                            endpoint_args = Map.empty\<rparr>]),
      update_config = Some \<lparr>cfg_child_policy = ''round_robin'', cfg_service_name = []\<rparr>,
      update_resolution_note = [],
      update_args =
        [GRPC_ARG_GRPCLB_BALANCER_ADDRESSES \<mapsto>
           AddressListArg [SockaddrIn [192, 0, 2, 53] [0, 53]]]\<rparr>"


definition example_policy :: "nat GrpcLb" where
  "example_policy = new_policy 0 10000"

section \<open>Properties of the serverlist and of the picker\<close>

text \<open>
  C1. On an empty entry vector \<open>ShouldDrop\<close> returns null and leaves the serverlist,
  and so its drop index, as it was. On a non-empty one it adds exactly one to the drop
  index (a \<open>size_t\<close>, so modulo \<open>2 ^ 64\<close>) and returns the token of the entry at the old
  index modulo the length when that entry is a drop entry, and null otherwise. A pick
  on a picker that holds a non-empty serverlist leaves that serverlist with the index
  advanced by exactly one.
\<close>

theorem ShouldDrop_advances:
  "(serverlist sl = [] \<longrightarrow> ShouldDrop sl = (None, sl)) \<and>
   (serverlist sl \<noteq> [] \<longrightarrow>
      snd (ShouldDrop sl) = sl\<lparr>drop_index := drop_index sl + 1\<rparr> \<and>
      unat (drop_index (snd (ShouldDrop sl))) = (unat (drop_index sl) + 1) mod 2 ^ 64 \<and>
      fst (ShouldDrop sl) =
        (let e = serverlist sl ! (unat (drop_index sl) mod length (serverlist sl))
         in if drop_entry e then Some (load_balance_token e) else None)) \<and>
   (picker_serverlist p = Some sl \<and> serverlist sl \<noteq> [] \<longrightarrow>
      fst (snd (Pick p pick_args st)) = Some (sl\<lparr>drop_index := drop_index sl + 1\<rparr>))"
  by (auto simp: ShouldDrop_def Pick_def Let_def unat_word_ariths
           split: option.splits PickResult.splits prod.splits)

theorem ShouldDrop_advances_witness:
  "ShouldDrop
     \<lparr>serverlist =
        [\<lparr>ip_size = 4, ip_addr = [1, 2, 3, 4], port = 80, load_balance_token = ''t'',
          drop_entry = False\<rparr>,
         \<lparr>ip_size = 0, ip_addr = [], port = 0, load_balance_token = ''x'',
          drop_entry = True\<rparr>],
      drop_index = 1\<rparr>
   = (Some ''x'',
      \<lparr>serverlist =
        [\<lparr>ip_size = 4, ip_addr = [1, 2, 3, 4], port = 80, load_balance_token = ''t'',
          drop_entry = False\<rparr>,
         \<lparr>ip_size = 0, ip_addr = [], port = 0, load_balance_token = ''x'',
          drop_entry = True\<rparr>],
      drop_index = 2\<rparr>)"
  using ShouldDrop_advances
    [of "\<lparr>serverlist =
        [\<lparr>ip_size = 4, ip_addr = [1, 2, 3, 4], port = 80, load_balance_token = ''t'',
          drop_entry = False\<rparr>,
         \<lparr>ip_size = 0, ip_addr = [], port = 0, load_balance_token = ''x'',
          drop_entry = True\<rparr>],
      drop_index = 1\<rparr>"
        "\<lparr>picker_serverlist = None, child_picker = (\<lambda>u :: unit. Queue),
          picker_client_stats = None\<rparr>"
        "()" "\<lambda>r. \<lparr>num_calls_started = 0, drop_token_counts = Map.empty\<rparr>"]
  by (simp add: ShouldDrop_def Let_def)

lemma signed_shift_port:
  "signed_drop_bit 16 (w :: 32 word) = 0 \<longleftrightarrow> 0 \<le> sint w \<and> sint w < 65536"
proof -
  have "signed_drop_bit 16 w = 0 \<longleftrightarrow> sint (signed_drop_bit 16 w) = 0"
    by (metis signed_0 word_eq_iff_signed)
  also have "\<dots> \<longleftrightarrow> sint w div 2 ^ 16 = 0"
    by (simp add: sint_signed_drop_bit_eq drop_bit_eq_div)
  also have "\<dots> \<longleftrightarrow> 0 \<le> sint w \<and> sint w < 65536"
    by (auto simp: div_eq_0_iff)
  finally show ?thesis .
qed

lemma high_bits_port: "drop_bit 16 (w :: 32 word) = 0 \<longleftrightarrow> unat w < 65536"
proof -
  have "drop_bit 16 w = 0 \<longleftrightarrow> unat (drop_bit 16 w) = 0"
    by (simp add: unat_eq_0)
  also have "\<dots> \<longleftrightarrow> unat w div 2 ^ 16 = 0"
    by (simp add: drop_bit_eq_div unat_div)
  also have "\<dots> \<longleftrightarrow> unat w < 65536"
    by (auto simp: div_eq_0_iff)
  finally show ?thesis .
qed

lemma sint_unat_port:
  "0 \<le> sint w \<and> sint w < 65536 \<longleftrightarrow> unat w < 65536" for w :: "32 word"
proof
  assume a: "0 \<le> sint w \<and> sint w < 65536"
  then have "take_bit 32 (sint w) = sint w"
    by (intro take_bit_int_eq_self) simp_all
  then have "uint w = sint w" by (simp add: uint_sint)
  with a have "int (unat w) < 65536" by (simp only: uint_nat)
  then show "unat w < 65536" by linarith
next
  assume a: "unat w < 65536"
  then have "int (unat w) < 65536" by linarith
  then have b: "uint w < 65536" by (simp only: uint_nat)
  have c: "0 \<le> uint w" by (simp only: uint_nat)
  have "signed_take_bit 31 (uint w) = uint w"
  proof (rule signed_take_bit_int_eq_self)
    have "(0::int) \<le> 2 ^ 31" by simp
    with c show "- (2 ^ 31) \<le> uint w" by linarith
    have "(65536::int) \<le> 2 ^ 31" by simp
    with b show "uint w < 2 ^ 31" by linarith
  qed
  then have "sint w = uint w" by (simp add: sint_uint)
  with b c show "0 \<le> sint w \<and> sint w < 65536" by simp
qed

lemma IsServerValid_iff:
  "IsServerValid e i lg \<longleftrightarrow>
     \<not> drop_entry e \<and> (ip_size e = 4 \<or> ip_size e = 16) \<and> drop_bit 16 (port e) = 0"
  by (auto simp: IsServerValid_def signed_shift_port sint_unat_port high_bits_port)

lemma token_c_str: "take (strnlen t (length t)) t = c_str t"
  by (simp add: strnlen_def c_str_def takeWhile_eq_take [symmetric])

lemma ForEach_from_filter:
  "ForEach_from i xs cs =
     map (\<lambda>e. \<lparr>addresses = [ParseServer e],
               endpoint_args =
                 SetObject \<lparr>arg_lb_token = c_str (load_balance_token e), arg_client_stats = cs\<rparr>
                   Map.empty\<rparr>)
       (filter (\<lambda>e. \<not> drop_entry e \<and> (ip_size e = 4 \<or> ip_size e = 16) \<and>
                    drop_bit 16 (port e) = 0) xs)"
  by (induction xs arbitrary: i) (auto simp: Let_def token_c_str IsServerValid_iff)

lemma Serverlist_eq_list_all2:
  "Serverlist_eq eq a b \<longleftrightarrow> list_all2 eq (serverlist a) (serverlist b)"
  by (auto simp: Serverlist_eq_def list_all2_iff list_all_iff)

text \<open>
  C8. The address iterator of a serverlist hands to its callback, in the order of the
  entry vector, one endpoint for each entry that is not a drop entry, has an address
  length of 4 or 16 and a port whose high 16 bits are zero, and nothing for any other
  entry. The other entries stay in the vector: the equality of two serverlists is the
  equality of the whole vectors (same length, entries pairwise equal), so an entry
  that the iteration skips still makes two serverlists different, whether it is
  added to the vector or differs from the entry at its place.
\<close>

theorem AddressIterator_skips_but_keeps:
  "AddressIterator_ForEach sl cs =
     map (\<lambda>e. \<lparr>addresses = [ParseServer e],
               endpoint_args =
                 SetObject \<lparr>arg_lb_token = c_str (load_balance_token e), arg_client_stats = cs\<rparr>
                   Map.empty\<rparr>)
       (filter (\<lambda>e. \<not> drop_entry e \<and> (ip_size e = 4 \<or> ip_size e = 16) \<and>
                    drop_bit 16 (port e) = 0) (serverlist sl)) \<and>
   (Serverlist_eq eq a b \<longleftrightarrow> list_all2 eq (serverlist a) (serverlist b)) \<and>
   ((drop_entry d \<or> \<not> (ip_size d = 4 \<or> ip_size d = 16) \<or> drop_bit 16 (port d) \<noteq> 0) \<longrightarrow>
      AddressIterator_ForEach (sl\<lparr>serverlist := serverlist sl @ [d]\<rparr>) cs =
        AddressIterator_ForEach sl cs \<and>
      \<not> Serverlist_eq eq (sl\<lparr>serverlist := serverlist sl @ [d]\<rparr>) sl) \<and>
   (i < length (serverlist a) \<and> \<not> eq (serverlist a ! i) (serverlist b ! i) \<longrightarrow>
      \<not> Serverlist_eq eq a b)"
  by (auto simp: AddressIterator_ForEach_def ForEach_from_filter Serverlist_eq_list_all2
           dest: list_all2_lengthD list_all2_nthD)

theorem AddressIterator_skips_but_keeps_witness:
  "AddressIterator_ForEach
     \<lparr>serverlist =
        [\<lparr>ip_size = 4, ip_addr = [1, 2, 3, 4], port = 80, load_balance_token = ''t'',
          drop_entry = False\<rparr>,
         \<lparr>ip_size = 0, ip_addr = [], port = 0, load_balance_token = ''x'',
          drop_entry = True\<rparr>],
      drop_index = 0\<rparr> None
   = AddressIterator_ForEach
     \<lparr>serverlist =
        [\<lparr>ip_size = 4, ip_addr = [1, 2, 3, 4], port = 80, load_balance_token = ''t'',
          drop_entry = False\<rparr>],
      drop_index = 0\<rparr> None \<and>
   \<not> Serverlist_eq (=)
     \<lparr>serverlist =
        [\<lparr>ip_size = 4, ip_addr = [1, 2, 3, 4], port = 80, load_balance_token = ''t'',
          drop_entry = False\<rparr>,
         \<lparr>ip_size = 0, ip_addr = [], port = 0, load_balance_token = ''x'',
          drop_entry = True\<rparr>],
      drop_index = 0\<rparr>
     \<lparr>serverlist =
        [\<lparr>ip_size = 4, ip_addr = [1, 2, 3, 4], port = 80, load_balance_token = ''t'',
          drop_entry = False\<rparr>],
      drop_index = 0\<rparr>"
  using AddressIterator_skips_but_keeps
    [of "\<lparr>serverlist =
           [\<lparr>ip_size = 4, ip_addr = [1, 2, 3, 4], port = 80, load_balance_token = ''t'',
             drop_entry = False\<rparr>],
         drop_index = 0\<rparr>"
        None "(=)" _ _
        "\<lparr>ip_size = 0, ip_addr = [], port = 0, load_balance_token = ''x'',
          drop_entry = True\<rparr>"]
  by simp




lemma seq_Inr_iff: "seq r f = Inr y \<longleftrightarrow> (\<exists>x. r = Inr x \<and> f x = Inr y)"
  by (cases r) (simp_all add: seq_def)

lemma CreateOrUpdate_fallback_addresses:
  "CreateOrUpdateChildPolicyLocked s = Inr s' \<Longrightarrow>
   fallback_backend_addresses s' = fallback_backend_addresses s"
  by (auto simp: CreateOrUpdateChildPolicyLocked_def seq_Inr_iff emit_def Let_def
           split: if_splits option.splits sum.splits prod.splits)

lemma StartCall_fallback_addresses:
  "StartBalancerCallLocked ext s = Inr s' \<Longrightarrow>
   fallback_backend_addresses s' = fallback_backend_addresses s"
  by (auto simp: StartBalancerCallLocked_def emit_def Let_def split: if_splits option.splits)

lemma UpdateBalancerChannel_fallback_addresses:
  "fallback_backend_addresses (snd (UpdateBalancerChannelLocked ext s)) = fallback_backend_addresses s"
  by (simp add: UpdateBalancerChannelLocked_def Let_def emit_def)

lemma UpdateLocked_fallback_addresses:
  assumes "UpdateLocked ext update s = Inr (status, s')"
  shows "fallback_backend_addresses s' =
           (case update_addresses update of
              Inl st \<Rightarrow> Inl st
            | Inr it \<Rightarrow> Inr (NullLbTokenEndpointIterator it))"
proof -
  define s1 where "s1 = s\<lparr>config := update_config update,
                      args := update_args update,
                      fallback_backend_addresses :=
                        (case update_addresses update of
                           Inl st \<Rightarrow> Inl st
                         | Inr it \<Rightarrow> Inr (NullLbTokenEndpointIterator it)),
                      resolution_note := update_resolution_note update\<rparr>"
  define s2 where "s2 = snd (UpdateBalancerChannelLocked ext s1)"
  have f2: "fallback_backend_addresses s2 =
           (case update_addresses update of
              Inl st \<Rightarrow> Inl st
            | Inr it \<Rightarrow> Inr (NullLbTokenEndpointIterator it))"
    by (simp add: s2_def UpdateBalancerChannel_fallback_addresses s1_def)
  from assms have "\<exists>s3.
      (if child_policy s2 then CreateOrUpdateChildPolicyLocked s2 else Inr s2) = Inr s3 \<and>
      fallback_backend_addresses s' = fallback_backend_addresses s3"
    unfolding UpdateLocked_def Let_def s1_def [symmetric] s2_def [symmetric]
    by (auto simp: seq_Inr_iff emit_def split: if_splits option.splits
             dest!: StartCall_fallback_addresses)
  then obtain s3 where
    a: "(if child_policy s2 then CreateOrUpdateChildPolicyLocked s2 else Inr s2) = Inr s3"
    and b: "fallback_backend_addresses s' = fallback_backend_addresses s3"
    by blast
  from a have "fallback_backend_addresses s3 = fallback_backend_addresses s2"
    by (auto split: if_splits dest: CreateOrUpdate_fallback_addresses)
  with b f2 show ?thesis by simp
qed

text \<open>
  C10. On a complete pick of the child picker (no drop by the serverlist), the
  picker adds to the metadata mutations of the pick the client-stats entry exactly
  when the subchannel wrapper has a stats object, whatever its token, and the
  lb-token entry exactly when the wrapper's token is not empty; the call tracker
  wraps the child's one exactly when the wrapper has a stats object.
  The fallback addresses are covered: an update stores the resolver's addresses
  behind a \<open>NullLbTokenEndpointIterator\<close>, every endpoint of such an iterator carries an
  empty token and a null stats pointer, the wrapper that \<open>CreateSubchannel\<close> makes for
  it has the empty token and no stats object, and a complete pick of such a wrapper
  gets no metadata entry and keeps the child's call tracker.
\<close>

theorem Pick_complete_metadata:
  "((picker_serverlist p = None \<or> (picker_serverlist p = Some sl \<and> fst (ShouldDrop sl) = None)) \<and>
    child_picker p a = Complete cp \<longrightarrow>
     (\<exists>cp'. fst (Pick p a st) = Complete cp' \<and>
        metadata_mutations cp' =
          metadata_mutations cp @
          (case wrapper_client_stats (subchannel cp) of
             None \<Rightarrow> []
           | Some cs \<Rightarrow> [(GrpcLbClientStatsMetadata_key, StatsPointerValue cs)]) @
          (if lb_token (subchannel cp) = [] then []
           else [(LbTokenMetadata_key, SliceValue (lb_token (subchannel cp)))]) \<and>
        (LbTokenMetadata_key \<in> fst ` set (drop (length (metadata_mutations cp)) (metadata_mutations cp'))
           \<longleftrightarrow> lb_token (subchannel cp) \<noteq> []) \<and>
        (GrpcLbClientStatsMetadata_key \<in> fst ` set (drop (length (metadata_mutations cp)) (metadata_mutations cp'))
           \<longleftrightarrow> wrapper_client_stats (subchannel cp) \<noteq> None) \<and>
        subchannel_call_tracker cp' =
          (case wrapper_client_stats (subchannel cp) of
             None \<Rightarrow> subchannel_call_tracker cp
           | Some cs \<Rightarrow> Some (SubchannelCallTracker cs (subchannel_call_tracker cp))))) \<and>
   (UpdateLocked ext update s = Inr (status, s') \<and> update_addresses update = Inr it \<longrightarrow>
      fallback_backend_addresses s' = Inr (NullLbTokenEndpointIterator it)) \<and>
   (e \<in> set (ForEach (NullLbTokenEndpointIterator it)) \<longrightarrow>
      GetObject (endpoint_args e) = Some \<lparr>arg_lb_token = [], arg_client_stats = None\<rparr> \<and>
      (\<not> shutting_down s \<longrightarrow>
         CreateSubchannel s sc addr (endpoint_args e) =
           Inr (Some \<lparr>wrapped_subchannel = sc, lb_token = [], wrapper_client_stats = None\<rparr>)) \<and>
      ((picker_serverlist p = None \<or> (picker_serverlist p = Some sl \<and> fst (ShouldDrop sl) = None)) \<and>
       child_picker p a = Complete cp \<and>
       CreateSubchannel s sc addr (endpoint_args e) = Inr (Some (subchannel cp)) \<longrightarrow>
         fst (Pick p a st) =
           Complete \<lparr>subchannel = sc, subchannel_call_tracker = subchannel_call_tracker cp,
                     metadata_mutations = metadata_mutations cp\<rparr>))"
proof -
  have fb: "GetObject (endpoint_args e) = Some \<lparr>arg_lb_token = [], arg_client_stats = None\<rparr>"
    if "e \<in> set (ForEach (NullLbTokenEndpointIterator it))" for e :: EndpointAddresses and it
    using that by (auto simp: GetObject_def SetObject_def empty_token_def)
  have a: "(picker_serverlist p = None \<or> (picker_serverlist p = Some sl \<and> fst (ShouldDrop sl) = None)) \<and>
    child_picker p a = Complete cp \<longrightarrow>
     (\<exists>cp'. fst (Pick p a st) = Complete cp' \<and>
        metadata_mutations cp' =
          metadata_mutations cp @
          (case wrapper_client_stats (subchannel cp) of
             None \<Rightarrow> []
           | Some cs \<Rightarrow> [(GrpcLbClientStatsMetadata_key, StatsPointerValue cs)]) @
          (if lb_token (subchannel cp) = [] then []
           else [(LbTokenMetadata_key, SliceValue (lb_token (subchannel cp)))]) \<and>
        (LbTokenMetadata_key \<in> fst ` set (drop (length (metadata_mutations cp)) (metadata_mutations cp'))
           \<longleftrightarrow> lb_token (subchannel cp) \<noteq> []) \<and>
        (GrpcLbClientStatsMetadata_key \<in> fst ` set (drop (length (metadata_mutations cp)) (metadata_mutations cp'))
           \<longleftrightarrow> wrapper_client_stats (subchannel cp) \<noteq> None) \<and>
        subchannel_call_tracker cp' =
          (case wrapper_client_stats (subchannel cp) of
             None \<Rightarrow> subchannel_call_tracker cp
           | Some cs \<Rightarrow> Some (SubchannelCallTracker cs (subchannel_call_tracker cp))))"
    by (auto simp: Pick_def Let_def LbTokenMetadata_key_def GrpcLbClientStatsMetadata_key_def
             split: option.splits PickResult.splits prod.splits)
  have b: "UpdateLocked ext update s = Inr (status, s') \<and> update_addresses update = Inr it \<longrightarrow>
      fallback_backend_addresses s' = Inr (NullLbTokenEndpointIterator it)"
    by (auto dest: UpdateLocked_fallback_addresses)
  have c: "e \<in> set (ForEach (NullLbTokenEndpointIterator it)) \<longrightarrow>
      GetObject (endpoint_args e) = Some \<lparr>arg_lb_token = [], arg_client_stats = None\<rparr> \<and>
      (\<not> shutting_down s \<longrightarrow>
         CreateSubchannel s sc addr (endpoint_args e) =
           Inr (Some \<lparr>wrapped_subchannel = sc, lb_token = [], wrapper_client_stats = None\<rparr>)) \<and>
      ((picker_serverlist p = None \<or> (picker_serverlist p = Some sl \<and> fst (ShouldDrop sl) = None)) \<and>
       child_picker p a = Complete cp \<and>
       CreateSubchannel s sc addr (endpoint_args e) = Inr (Some (subchannel cp)) \<longrightarrow>
         fst (Pick p a st) =
           Complete \<lparr>subchannel = sc, subchannel_call_tracker = subchannel_call_tracker cp,
                     metadata_mutations = metadata_mutations cp\<rparr>)"
  proof
    assume m: "e \<in> set (ForEach (NullLbTokenEndpointIterator it))"
    note g = fb [OF m]
    have c1: "\<not> shutting_down s \<longrightarrow>
         CreateSubchannel s sc addr (endpoint_args e) =
           Inr (Some \<lparr>wrapped_subchannel = sc, lb_token = [], wrapper_client_stats = None\<rparr>)"
      using g by (simp add: CreateSubchannel_def)
    have c2: "(picker_serverlist p = None \<or> (picker_serverlist p = Some sl \<and> fst (ShouldDrop sl) = None)) \<and>
       child_picker p a = Complete cp \<and>
       CreateSubchannel s sc addr (endpoint_args e) = Inr (Some (subchannel cp)) \<longrightarrow>
         fst (Pick p a st) =
           Complete \<lparr>subchannel = sc, subchannel_call_tracker = subchannel_call_tracker cp,
                     metadata_mutations = metadata_mutations cp\<rparr>"
    proof (intro impI, elim conjE)
      assume d: "picker_serverlist p = None \<or> (picker_serverlist p = Some sl \<and> fst (ShouldDrop sl) = None)"
        and k: "child_picker p a = Complete cp"
        and w: "CreateSubchannel s sc addr (endpoint_args e) = Inr (Some (subchannel cp))"
      from w g have "subchannel cp =
          \<lparr>wrapped_subchannel = sc, lb_token = [], wrapper_client_stats = None\<rparr>"
        by (simp add: CreateSubchannel_def split: if_splits)
      then have f: "wrapped_subchannel (subchannel cp) = sc" "lb_token (subchannel cp) = []"
        "wrapper_client_stats (subchannel cp) = None"
        by simp_all
      from d k f show "fst (Pick p a st) =
           Complete \<lparr>subchannel = sc, subchannel_call_tracker = subchannel_call_tracker cp,
                     metadata_mutations = metadata_mutations cp\<rparr>"
        by (auto simp: Pick_def Let_def)
    qed
    from g c1 c2
    show "GetObject (endpoint_args e) = Some \<lparr>arg_lb_token = [], arg_client_stats = None\<rparr> \<and>
      (\<not> shutting_down s \<longrightarrow>
         CreateSubchannel s sc addr (endpoint_args e) =
           Inr (Some \<lparr>wrapped_subchannel = sc, lb_token = [], wrapper_client_stats = None\<rparr>)) \<and>
      ((picker_serverlist p = None \<or> (picker_serverlist p = Some sl \<and> fst (ShouldDrop sl) = None)) \<and>
       child_picker p a = Complete cp \<and>
       CreateSubchannel s sc addr (endpoint_args e) = Inr (Some (subchannel cp)) \<longrightarrow>
         fst (Pick p a st) =
           Complete \<lparr>subchannel = sc, subchannel_call_tracker = subchannel_call_tracker cp,
                     metadata_mutations = metadata_mutations cp\<rparr>)"
      by blast
  qed
  from a b c show ?thesis by blast
qed

theorem Pick_complete_metadata_witness:
  "fst (Pick \<lparr>picker_serverlist = None,
             child_picker =
               (\<lambda>u :: unit. Complete \<lparr>subchannel =
                                        \<lparr>wrapped_subchannel = 5, lb_token = ''t'',
                                          wrapper_client_stats = Some 7\<rparr>,
                                      subchannel_call_tracker = None,
                                      metadata_mutations = []\<rparr>),
             picker_client_stats = None\<rparr>
         () (\<lambda>r. \<lparr>num_calls_started = 0, drop_token_counts = Map.empty\<rparr>))
   = Complete \<lparr>subchannel = 5,
               subchannel_call_tracker = Some (SubchannelCallTracker 7 None),
               metadata_mutations =
                 [(GrpcLbClientStatsMetadata_key, StatsPointerValue 7),
                  (LbTokenMetadata_key, SliceValue ''t'')]\<rparr> \<and>
   CreateSubchannel (new_policy (0 :: nat) 10000) 5 Zeroed
     (endpoint_args
        (hd (ForEach (NullLbTokenEndpointIterator
                        (EndpointList [\<lparr>addresses = [Zeroed], endpoint_args = Map.empty\<rparr>])))))
   = Inr (Some \<lparr>wrapped_subchannel = 5, lb_token = [], wrapper_client_stats = None\<rparr>) \<and>
   fst (Pick \<lparr>picker_serverlist = None,
             child_picker =
               (\<lambda>u :: unit. Complete \<lparr>subchannel =
                                        \<lparr>wrapped_subchannel = 5, lb_token = [],
                                          wrapper_client_stats = None\<rparr>,
                                      subchannel_call_tracker = None,
                                      metadata_mutations = []\<rparr>),
             picker_client_stats = None\<rparr>
         () (\<lambda>r. \<lparr>num_calls_started = 0, drop_token_counts = Map.empty\<rparr>))
   = Complete \<lparr>subchannel = 5, subchannel_call_tracker = None, metadata_mutations = []\<rparr>"
  using Pick_complete_metadata
    [where p = "\<lparr>picker_serverlist = None,
             child_picker =
               (\<lambda>u :: unit. Complete \<lparr>subchannel =
                                        \<lparr>wrapped_subchannel = 5, lb_token = ''t'',
                                          wrapper_client_stats = Some 7\<rparr>,
                                      subchannel_call_tracker = None,
                                      metadata_mutations = []\<rparr>),
             picker_client_stats = None\<rparr>"
       and a = "()"
       and cp = "\<lparr>subchannel = \<lparr>wrapped_subchannel = 5, lb_token = ''t'',
                         wrapper_client_stats = Some 7\<rparr>,
          subchannel_call_tracker = None, metadata_mutations = []\<rparr>"
       and st = "\<lambda>r. \<lparr>num_calls_started = 0, drop_token_counts = Map.empty\<rparr>"]
    Pick_complete_metadata
    [where p = "\<lparr>picker_serverlist = None,
             child_picker =
               (\<lambda>u :: unit. Complete \<lparr>subchannel =
                                        \<lparr>wrapped_subchannel = 5, lb_token = [],
                                          wrapper_client_stats = None\<rparr>,
                                      subchannel_call_tracker = None,
                                      metadata_mutations = []\<rparr>),
             picker_client_stats = None\<rparr>"
       and a = "()"
       and cp = "\<lparr>subchannel = \<lparr>wrapped_subchannel = 5, lb_token = [],
                         wrapper_client_stats = None\<rparr>,
          subchannel_call_tracker = None, metadata_mutations = []\<rparr>"
       and st = "\<lambda>r. \<lparr>num_calls_started = 0, drop_token_counts = Map.empty\<rparr>"
       and e = "hd (ForEach (NullLbTokenEndpointIterator
                        (EndpointList [\<lparr>addresses = [Zeroed], endpoint_args = Map.empty\<rparr>])))"
       and it = "EndpointList [\<lparr>addresses = [Zeroed], endpoint_args = Map.empty\<rparr>]"
       and s = "new_policy (0 :: nat) 10000" and sc = 5 and addr = Zeroed]
  by (simp add: Pick_def CreateSubchannel_def new_policy_def GetObject_def SetObject_def
                empty_token_def)

section \<open>The invariant of the policy\<close>

text \<open>
  Every callback that can run in a state where the invariant holds returns, without
  ending the process, in a state where the invariant holds. The lemmas follow the
  callbacks one by one.
\<close>

lemma CreateOrUpdate_ok:
  "shutting_down s \<or> ((fallback_mode s \<or> lb_serverlist s \<noteq> None) \<and> config s \<noteq> None) \<Longrightarrow>
   \<exists>s'. CreateOrUpdateChildPolicyLocked s = Inr s'"
  by (auto simp: CreateOrUpdateChildPolicyLocked_def seq_def CreateChildPolicyArgsLocked_def Let_def
           split: if_splits option.splits sum.splits prod.splits)

lemma CancelTimer_frame:
  "CancelFallbackTimer s = Inr s' \<longleftrightarrow>
   lb_fallback_timer_handle s \<noteq> None \<and> s' = s\<lparr>effects := effects s @ [FallbackTimerCancelled]\<rparr>"
  by (auto simp: CancelFallbackTimer_def emit_def split: option.splits)

lemma CancelWatch_frame:
  "CancelBalancerChannelConnectivityWatchLocked s = Inr s' \<longleftrightarrow>
   lb_channel s \<noteq> None \<and> s' = s\<lparr>effects := effects s @ [ConnectivityWatcherRemoved]\<rparr>"
  by (auto simp: CancelBalancerChannelConnectivityWatchLocked_def emit_def split: option.splits)

lemma StartCall_ok:
  "lb_channel s \<noteq> None \<Longrightarrow> shutting_down s \<or> (lb_calld s = None \<and> config s \<noteq> None) \<Longrightarrow>
   \<exists>s'. StartBalancerCallLocked ext s = Inr s'"
  by (auto simp: StartBalancerCallLocked_def Let_def split: if_splits option.splits)


lemma CreateOrUpdate_fields:
  assumes "CreateOrUpdateChildPolicyLocked s = Inr s'"
  shows "config s' = config s \<and> shutting_down s' = shutting_down s \<and>
         lb_channel s' = lb_channel s \<and> lb_calld s' = lb_calld s \<and> calls s' = calls s \<and>
         lb_call_retry_timer_handle s' = lb_call_retry_timer_handle s \<and>
         lb_serverlist s' = lb_serverlist s \<and> fallback_mode s' = fallback_mode s \<and>
         fallback_at_startup_checks_pending s' = fallback_at_startup_checks_pending s \<and>
         lb_fallback_timer_handle s' = lb_fallback_timer_handle s \<and>
         child_policy_ready s' = child_policy_ready s \<and>
         lb_call_backoff s' = lb_call_backoff s \<and>
         child_policy s' = (child_policy s \<or> \<not> shutting_down s)"
  using assms
  by (auto simp: CreateOrUpdateChildPolicyLocked_def seq_Inr_iff emit_def Let_def
           split: if_splits option.splits sum.splits prod.splits)

lemma StartCall_fields:
  assumes "StartBalancerCallLocked ext s = Inr s'"
  shows "config s' = config s \<and> shutting_down s' = shutting_down s \<and>
         lb_channel s' = lb_channel s \<and> lb_channel s \<noteq> None \<and>
         lb_call_retry_timer_handle s' = lb_call_retry_timer_handle s \<and>
         lb_serverlist s' = lb_serverlist s \<and> fallback_mode s' = fallback_mode s \<and>
         fallback_at_startup_checks_pending s' = fallback_at_startup_checks_pending s \<and>
         lb_fallback_timer_handle s' = lb_fallback_timer_handle s \<and>
         child_policy_ready s' = child_policy_ready s \<and>
         lb_call_backoff s' = lb_call_backoff s \<and>
         child_policy s' = child_policy s \<and>
         (if shutting_down s then lb_calld s' = lb_calld s \<and> calls s' = calls s
          else lb_calld s = None \<and> config s \<noteq> None \<and> lb_calld s' = Some (next_call s) \<and>
               calls s' = (calls s)(next_call s := initial_call))"
  using assms
  by (auto simp: StartBalancerCallLocked_def emit_def Let_def split: if_splits option.splits)


lemma policy_inv_effects [simp]: "policy_inv (s\<lparr>effects := e\<rparr>) = policy_inv s"
  by (simp add: policy_inv_def)

lemma CreateOrUpdate_inv:
  assumes "policy_inv s" and "CreateOrUpdateChildPolicyLocked s = Inr s'"
    and "fallback_mode s \<or> lb_serverlist s \<noteq> None" and "config s \<noteq> None"
  shows "policy_inv s'"
  using assms(1,3,4) CreateOrUpdate_fields [OF assms(2)]
  unfolding policy_inv_def by simp

lemma MaybeEnter_inv:
  assumes "policy_inv s" and "MaybeEnterFallbackModeAfterStartup s = Inr s'"
    and "config s \<noteq> None"
  shows "policy_inv s'"
proof (cases "MaybeEnterFallbackModeAfterStartup s = Inr s")
  case True
  with assms show ?thesis by simp
next
  case False
  with assms(2) have c: "CreateOrUpdateChildPolicyLocked (s\<lparr>fallback_mode := True\<rparr>) = Inr s'"
    and n: "\<not> fallback_at_startup_checks_pending s"
    by (auto simp: MaybeEnterFallbackModeAfterStartup_def split: if_splits)
  have "policy_inv (s\<lparr>fallback_mode := True\<rparr>)"
    using assms(1) unfolding policy_inv_def by simp
  from CreateOrUpdate_inv [OF this c] assms(3) show ?thesis by simp
qed



lemma OnFallbackTimer_inv:
  assumes inv: "policy_inv s"
  shows "\<exists>s'. OnFallbackTimerLocked s = Inr s' \<and> policy_inv s'"
proof (cases "fallback_at_startup_checks_pending s \<and> \<not> shutting_down s")
  case False
  with inv show ?thesis by (auto simp: OnFallbackTimerLocked_def)
next
  case True
  define s1 where "s1 = s\<lparr>fallback_at_startup_checks_pending := False,
                         effects := effects s @ [ConnectivityWatcherRemoved],
                         fallback_mode := True\<rparr>"
  from inv True have h: "lb_channel s \<noteq> None" "config s \<noteq> None"
    by (auto simp: policy_inv_def)
  have i1: "policy_inv s1" using inv True by (auto simp: policy_inv_def s1_def)
  from h obtain s' where c: "CreateOrUpdateChildPolicyLocked s1 = Inr s'"
    using CreateOrUpdate_ok [of s1] by (auto simp: s1_def)
  have "policy_inv s'" by (rule CreateOrUpdate_inv [OF i1 c]) (simp_all add: s1_def h)
  moreover have "OnFallbackTimerLocked s = Inr s'"
    using True h c by (auto simp: OnFallbackTimerLocked_def seq_Inr_iff CancelWatch_frame s1_def)
  ultimately show ?thesis by blast
qed

lemma OnConnectivity_inv:
  assumes inv: "policy_inv s"
  shows "\<exists>s'. OnConnectivityStateChange st s = Inr s' \<and> policy_inv s'"
proof (cases "fallback_at_startup_checks_pending s \<and> st = GRPC_CHANNEL_TRANSIENT_FAILURE")
  case False
  with inv show ?thesis by (auto simp: OnConnectivityStateChange_def)
next
  case True
  define s1 where "s1 = s\<lparr>fallback_at_startup_checks_pending := False,
                         effects := effects s @ [FallbackTimerCancelled],
                         fallback_mode := True\<rparr>"
  from inv True have h: "lb_channel s \<noteq> None" "config s \<noteq> None" "lb_fallback_timer_handle s \<noteq> None"
    by (auto simp: policy_inv_def)
  have i1: "policy_inv s1" using inv True by (auto simp: policy_inv_def s1_def)
  from h obtain s2 where c: "CreateOrUpdateChildPolicyLocked s1 = Inr s2"
    using CreateOrUpdate_ok [of s1] by (auto simp: s1_def)
  have i2: "policy_inv s2" by (rule CreateOrUpdate_inv [OF i1 c]) (simp_all add: s1_def h)
  from CreateOrUpdate_fields [OF c] h have ch: "lb_channel s2 \<noteq> None" by (simp add: s1_def)
  have "OnConnectivityStateChange st s =
          Inr (s2\<lparr>effects := effects s2 @ [ConnectivityWatcherRemoved]\<rparr>)"
    using True h c ch
    by (auto simp: OnConnectivityStateChange_def seq_Inr_iff CancelWatch_frame CancelTimer_frame s1_def)
  with i2 show ?thesis by simp
qed

lemma MaybeEnter_ok:
  "policy_inv s \<Longrightarrow> config s \<noteq> None \<Longrightarrow> \<exists>s'. MaybeEnterFallbackModeAfterStartup s = Inr s'"
  by (auto simp: MaybeEnterFallbackModeAfterStartup_def intro!: CreateOrUpdate_ok)

lemma UpdateState_inv:
  assumes inv: "policy_inv s" and en: "child_policy s"
  shows "\<exists>s'. UpdateState st status picker s = Inr s' \<and> policy_inv s'"
proof -
  from inv en have h: "\<not> shutting_down s" "config s \<noteq> None" by (auto simp: policy_inv_def)
  define s1 where "s1 = s\<lparr>child_policy_ready := (st = GRPC_CHANNEL_READY)\<rparr>"
  have i1: "policy_inv s1" using inv by (simp add: policy_inv_def s1_def)
  from MaybeEnter_ok [OF i1] h obtain s2 where m: "MaybeEnterFallbackModeAfterStartup s1 = Inr s2"
    by (auto simp: s1_def)
  have i2: "policy_inv s2" by (rule MaybeEnter_inv [OF i1 m]) (simp add: s1_def h)
  from m h i2 show ?thesis
    by (auto simp: UpdateState_def seq_Inr_iff s1_def emit_def Let_def)
qed

lemma StartCall_inv:
  assumes inv: "policy_inv s" and st: "StartBalancerCallLocked ext s = Inr s'"
    and "shutting_down s \<or> \<not> fallback_at_startup_checks_pending s \<or> lb_serverlist s = None"
  shows "policy_inv s'"
  using inv assms(3) StartCall_fields [OF st]
  unfolding policy_inv_def by (auto simp: initial_call_def split: if_splits)

lemma RetryTimer_inv:
  assumes inv: "policy_inv s" and en: "lb_call_retry_timer_handle s \<noteq> None"
  shows "\<exists>s'. OnBalancerCallRetryTimerLocked ext s = Inr s' \<and> policy_inv s'"
proof -
  define s1 where "s1 = s\<lparr>lb_call_retry_timer_handle := None\<rparr>"
  have i1: "policy_inv s1" using inv by (simp add: policy_inv_def s1_def)
  show ?thesis
  proof (cases "\<not> shutting_down s \<and> lb_calld s = None")
    case False
    with i1 show ?thesis by (auto simp: OnBalancerCallRetryTimerLocked_def Let_def s1_def)
  next
    case True
    with inv en have h: "lb_channel s \<noteq> None" "config s \<noteq> None" by (auto simp: policy_inv_def)
    with True obtain s' where c: "StartBalancerCallLocked ext s1 = Inr s'"
      using StartCall_ok [of s1 ext] by (auto simp: s1_def)
    have "policy_inv s'"
      by (rule StartCall_inv [OF i1 c]) (use inv True in \<open>auto simp: s1_def policy_inv_def\<close>)
    with c True show ?thesis by (auto simp: OnBalancerCallRetryTimerLocked_def Let_def s1_def)
  qed
qed


lemma good_Inr [simp]: "good (Inr s) = policy_inv s"
  by (simp add: good_def)

lemma good_iff: "good r \<longleftrightarrow> (\<exists>s'. r = Inr s' \<and> policy_inv s')"
  by (cases r) (simp_all add: good_def)

lemma good_seq:
  "good r \<Longrightarrow> (\<And>x. r = Inr x \<Longrightarrow> policy_inv x \<Longrightarrow> good (f x)) \<Longrightarrow> good (seq r f)"
  by (cases r) (simp_all add: good_def seq_def)

lemma good_CreateOrUpdate:
  "policy_inv s \<Longrightarrow> fallback_mode s \<or> lb_serverlist s \<noteq> None \<Longrightarrow> config s \<noteq> None \<Longrightarrow>
   good (CreateOrUpdateChildPolicyLocked s)"
  using CreateOrUpdate_ok [of s] CreateOrUpdate_inv [of s] by (auto simp: good_iff)

lemma good_CancelTimer:
  "policy_inv s \<Longrightarrow> lb_fallback_timer_handle s \<noteq> None \<Longrightarrow> good (CancelFallbackTimer s)"
  by (auto simp: good_iff CancelTimer_frame)

lemma good_CancelWatch:
  "policy_inv s \<Longrightarrow> lb_channel s \<noteq> None \<Longrightarrow>
   good (CancelBalancerChannelConnectivityWatchLocked s)"
  by (auto simp: good_iff CancelWatch_frame)

lemma cancel_checks_good:
  assumes "policy_inv s" "fallback_at_startup_checks_pending s"
  shows "good (seq (CancelFallbackTimer (s\<lparr>fallback_at_startup_checks_pending := False\<rparr>))
                CancelBalancerChannelConnectivityWatchLocked)"
  using assms
  by (auto simp: good_iff seq_Inr_iff CancelTimer_frame CancelWatch_frame policy_inv_def)

lemma cancel_checks_fields:
  assumes "seq (CancelFallbackTimer (s\<lparr>fallback_at_startup_checks_pending := False\<rparr>))
                CancelBalancerChannelConnectivityWatchLocked = Inr x"
  shows "x = s\<lparr>fallback_at_startup_checks_pending := False,
               effects := effects s @ [FallbackTimerCancelled, ConnectivityWatcherRemoved]\<rparr>"
  using assms by (auto simp: seq_Inr_iff CancelTimer_frame CancelWatch_frame)

lemma OnINITIAL_fields:
  "config (OnINITIAL t i s) = config s \<and> shutting_down (OnINITIAL t i s) = shutting_down s \<and>
   lb_channel (OnINITIAL t i s) = lb_channel s \<and> lb_calld (OnINITIAL t i s) = lb_calld s \<and>
   lb_call_retry_timer_handle (OnINITIAL t i s) = lb_call_retry_timer_handle s \<and>
   lb_serverlist (OnINITIAL t i s) = lb_serverlist s \<and>
   fallback_mode (OnINITIAL t i s) = fallback_mode s \<and>
   fallback_at_startup_checks_pending (OnINITIAL t i s) = fallback_at_startup_checks_pending s \<and>
   lb_fallback_timer_handle (OnINITIAL t i s) = lb_fallback_timer_handle s \<and>
   child_policy (OnINITIAL t i s) = child_policy s \<and>
   seen_serverlist (calls (OnINITIAL t i s) c) = seen_serverlist (calls s c)"
  by (simp add: OnINITIAL_def Let_def)

lemma OnINITIAL_inv: "policy_inv (OnINITIAL this interval s) = policy_inv s"
  by (simp add: policy_inv_def OnINITIAL_fields)

lemma OnFALLBACK_good:
  assumes inv: "policy_inv s" and cur: "lb_calld s \<noteq> None"
  shows "good (OnFALLBACK s)"
proof (cases "fallback_mode s")
  case True
  with inv show ?thesis by (simp add: OnFALLBACK_def)
next
  case False
  from inv cur have h: "lb_channel s \<noteq> None" "config s \<noteq> None" "\<not> shutting_down s"
    by (auto simp: policy_inv_def)
  have "good (seq (if fallback_at_startup_checks_pending s
                then seq (CancelFallbackTimer
                            (s\<lparr>fallback_at_startup_checks_pending := False\<rparr>))
                       CancelBalancerChannelConnectivityWatchLocked
                else Inr s)
             (\<lambda>s1. seq (CreateOrUpdateChildPolicyLocked (s1\<lparr>fallback_mode := True\<rparr>))
                      (\<lambda>s2. Inr (s2\<lparr>lb_serverlist := None\<rparr>))))"
  proof (rule good_seq)
    show "good (if fallback_at_startup_checks_pending s
                then seq (CancelFallbackTimer
                            (s\<lparr>fallback_at_startup_checks_pending := False\<rparr>))
                       CancelBalancerChannelConnectivityWatchLocked
                else Inr s)"
      using inv by (simp add: cancel_checks_good)
  next
    fix x
    assume x: "(if fallback_at_startup_checks_pending s
                then seq (CancelFallbackTimer
                            (s\<lparr>fallback_at_startup_checks_pending := False\<rparr>))
                       CancelBalancerChannelConnectivityWatchLocked
                else Inr s) = Inr x" and ix: "policy_inv x"
    have xf: "config x = config s" "shutting_down x = shutting_down s"
      "\<not> fallback_at_startup_checks_pending x" "lb_calld x = lb_calld s"
      using x by (auto split: if_splits dest!: cancel_checks_fields)
    have i1: "policy_inv (x\<lparr>fallback_mode := True\<rparr>)"
      using ix by (auto simp: policy_inv_def)
    show "good (seq (CreateOrUpdateChildPolicyLocked (x\<lparr>fallback_mode := True\<rparr>))
                      (\<lambda>s2. Inr (s2\<lparr>lb_serverlist := None\<rparr>)))"
    proof (rule good_seq)
      show "good (CreateOrUpdateChildPolicyLocked (x\<lparr>fallback_mode := True\<rparr>))"
        using i1 xf h by (intro good_CreateOrUpdate) simp_all
    next
      fix y
      assume y: "CreateOrUpdateChildPolicyLocked (x\<lparr>fallback_mode := True\<rparr>) = Inr y"
        and iy: "policy_inv y"
      from CreateOrUpdate_fields [OF y] xf h iy
      show "good (Inr (y\<lparr>lb_serverlist := None\<rparr>))"
        by (auto simp: policy_inv_def)
    qed
  qed
  with False show ?thesis by (simp add: OnFALLBACK_def)
qed


lemma cancel_checks_eq:
  "lb_fallback_timer_handle s \<noteq> None \<Longrightarrow> lb_channel s \<noteq> None \<Longrightarrow>
   seq (CancelFallbackTimer (s\<lparr>fallback_at_startup_checks_pending := False\<rparr>))
       CancelBalancerChannelConnectivityWatchLocked
   = Inr (s\<lparr>fallback_at_startup_checks_pending := False,
              effects := effects s @ [FallbackTimerCancelled, ConnectivityWatcherRemoved]\<rparr>)"
  by (auto simp: seq_def CancelFallbackTimer_def CancelBalancerChannelConnectivityWatchLocked_def
                 emit_def)

lemma seq_Inr [simp]: "seq (Inr x) f = f x"
  by (simp add: seq_def)

lemma OnSERVERLIST_good:
  assumes inv: "policy_inv s" and cur: "lb_calld s = Some this"
  shows "good (OnSERVERLIST ext this entries s)"
proof -
  from inv cur have h: "lb_channel s \<noteq> None" "config s \<noteq> None" "\<not> shutting_down s"
    by (auto simp: policy_inv_def)
  define w where "w = \<lparr>serverlist = entries, drop_index = 0\<rparr>"
  define s1 where
    "s1 = s\<lparr>calls := (calls s)(this := (calls s this)\<lparr>seen_serverlist := True\<rparr>)\<rparr>"
  define s2 where
    "s2 = (if client_stats_report_interval (calls s1 this) > 0 \<and>
                   client_stats (calls s1 this) = None
                then emit (ClientLoadReportScheduled this
                             (client_stats_report_interval (calls s1 this)))
                       (s1\<lparr>calls := (calls s1)
                               (this := (calls s1 this)\<lparr>client_stats := Some (next_stats s1)\<rparr>),
                           next_stats := Suc (next_stats s1)\<rparr>)
                else s1)"
  define s3 where "s3 = (if fallback_mode s2 then s2\<lparr>fallback_mode := False\<rparr> else s2)"
  have eq: "OnSERVERLIST ext this entries s =
     (if (case lb_serverlist s2 of None \<Rightarrow> False
             | Some cur \<Rightarrow> Serverlist_eq (entry_eq ext) cur w)
         then Inr s2
         else seq (if fallback_at_startup_checks_pending s3
                   then seq (CancelFallbackTimer
                               (s3\<lparr>fallback_at_startup_checks_pending := False\<rparr>))
                          CancelBalancerChannelConnectivityWatchLocked
                   else Inr s3)
                (\<lambda>s4. CreateOrUpdateChildPolicyLocked (s4\<lparr>lb_serverlist := Some w\<rparr>)))"
    unfolding OnSERVERLIST_def Let_def s1_def s2_def s3_def w_def by (rule refl)
  have f2: "config s2 = config s" "shutting_down s2 = shutting_down s"
    "lb_channel s2 = lb_channel s" "lb_calld s2 = lb_calld s"
    "lb_call_retry_timer_handle s2 = lb_call_retry_timer_handle s"
    "lb_serverlist s2 = lb_serverlist s" "fallback_mode s2 = fallback_mode s"
    "fallback_at_startup_checks_pending s2 = fallback_at_startup_checks_pending s"
    "lb_fallback_timer_handle s2 = lb_fallback_timer_handle s"
    "child_policy s2 = child_policy s"
    by (simp_all add: s2_def s1_def emit_def)
  have f3: "config s3 = config s" "shutting_down s3 = shutting_down s"
    "lb_channel s3 = lb_channel s" "lb_calld s3 = lb_calld s"
    "lb_call_retry_timer_handle s3 = lb_call_retry_timer_handle s"
    "lb_serverlist s3 = lb_serverlist s" "\<not> fallback_mode s3"
    "fallback_at_startup_checks_pending s3 = fallback_at_startup_checks_pending s"
    "lb_fallback_timer_handle s3 = lb_fallback_timer_handle s"
    "child_policy s3 = child_policy s"
    by (simp_all add: s3_def f2)
  have key: "good (CreateOrUpdateChildPolicyLocked (x\<lparr>lb_serverlist := Some w\<rparr>))"
    if "config x = config s" "shutting_down x = shutting_down s" "lb_channel x = lb_channel s"
       "lb_calld x = lb_calld s" "lb_call_retry_timer_handle x = lb_call_retry_timer_handle s"
       "\<not> fallback_at_startup_checks_pending x" "child_policy x = child_policy s"
    for x
  proof (rule good_CreateOrUpdate)
    show "policy_inv (x\<lparr>lb_serverlist := Some w\<rparr>)"
      using inv h that by (simp add: policy_inv_def)
  qed (use that h in simp_all)
  show ?thesis
  proof (cases "case lb_serverlist s2 of None \<Rightarrow> False
             | Some cur \<Rightarrow> Serverlist_eq (entry_eq ext) cur w")
    case True
    then have "lb_serverlist s \<noteq> None" by (auto simp: f2 split: option.splits)
    with inv h have "\<not> fallback_at_startup_checks_pending s" by (auto simp: policy_inv_def)
    with inv have "policy_inv s2" by (simp add: policy_inv_def f2)
    with True show ?thesis by (simp add: eq)
  next
    case False
    show ?thesis
    proof (cases "fallback_at_startup_checks_pending s")
      case p: True
      with inv have hh: "lb_fallback_timer_handle s3 \<noteq> None" "lb_channel s3 \<noteq> None"
        by (auto simp: policy_inv_def f3)
      show ?thesis using False p
        by (simp add: eq f3 cancel_checks_eq [OF hh] key)
    next
      case np: False
      then show ?thesis using False by (simp add: eq f3 key)
    qed
  qed
qed


lemma policy_inv_emit [simp]: "policy_inv (emit e s) = policy_inv s"
  by (simp add: emit_def)

lemma emit_fields [simp]:
  "config (emit e s) = config s" "shutting_down (emit e s) = shutting_down s"
  "lb_channel (emit e s) = lb_channel s" "lb_calld (emit e s) = lb_calld s"
  "calls (emit e s) = calls s" "lb_serverlist (emit e s) = lb_serverlist s"
  "lb_call_retry_timer_handle (emit e s) = lb_call_retry_timer_handle s"
  "fallback_mode (emit e s) = fallback_mode s"
  "fallback_at_startup_checks_pending (emit e s) = fallback_at_startup_checks_pending s"
  "lb_fallback_timer_handle (emit e s) = lb_fallback_timer_handle s"
  "child_policy (emit e s) = child_policy s" "lb_call_backoff (emit e s) = lb_call_backoff s"
  "child_policy_ready (emit e s) = child_policy_ready s"
  by (simp_all add: emit_def)

lemma OnBalancerMessageReceived_good:
  assumes inv: "policy_inv s"
  shows "good (OnBalancerMessageReceivedLocked ext this payload s)"
proof (cases "Some this \<noteq> lb_calld s \<or> payload = None")
  case True
  with inv show ?thesis by (simp add: OnBalancerMessageReceivedLocked_def)
next
  case False
  then have cur: "lb_calld s = Some this" by auto
  have "good (case GrpcLbResponseParse ext (the payload) of
               None \<Rightarrow> Inr s
             | Some (INITIAL interval) \<Rightarrow>
                 if seen_initial_response (calls s this) then Inr s
                 else Inr (OnINITIAL this interval s)
             | Some (SERVERLIST entries) \<Rightarrow> OnSERVERLIST ext this entries s
             | Some FALLBACK \<Rightarrow> OnFALLBACK s)"
    using inv cur
    by (auto split: option.splits GrpcLbResponse.splits
             simp: OnINITIAL_inv OnSERVERLIST_good OnFALLBACK_good)
  then have "good (seq (case GrpcLbResponseParse ext (the payload) of
               None \<Rightarrow> Inr s
             | Some (INITIAL interval) \<Rightarrow>
                 if seen_initial_response (calls s this) then Inr s
                 else Inr (OnINITIAL this interval s)
             | Some (SERVERLIST entries) \<Rightarrow> OnSERVERLIST ext this entries s
             | Some FALLBACK \<Rightarrow> OnFALLBACK s)
          (\<lambda>s1. if \<not> shutting_down s1 then Inr (emit (BalancerMessageRequested this) s1)
                else Inr s1))"
    by (rule good_seq) simp
  moreover from False obtain bytes where "payload = Some bytes" by auto
  ultimately show ?thesis using cur by (simp add: OnBalancerMessageReceivedLocked_def)
qed

lemma MaybeEnter_fields:
  assumes "MaybeEnterFallbackModeAfterStartup s = Inr s'"
  shows "config s' = config s \<and> shutting_down s' = shutting_down s \<and>
         lb_channel s' = lb_channel s \<and> lb_calld s' = lb_calld s \<and> calls s' = calls s \<and>
         lb_call_retry_timer_handle s' = lb_call_retry_timer_handle s \<and>
         lb_serverlist s' = lb_serverlist s \<and>
         fallback_at_startup_checks_pending s' = fallback_at_startup_checks_pending s \<and>
         lb_fallback_timer_handle s' = lb_fallback_timer_handle s \<and>
         lb_call_backoff s' = lb_call_backoff s"
proof (cases "MaybeEnterFallbackModeAfterStartup s = Inr s")
  case True
  with assms show ?thesis by simp
next
  case False
  with assms have "CreateOrUpdateChildPolicyLocked (s\<lparr>fallback_mode := True\<rparr>) = Inr s'"
    by (auto simp: MaybeEnterFallbackModeAfterStartup_def split: if_splits)
  from CreateOrUpdate_fields [OF this] show ?thesis by simp
qed

lemma StartRetryTimer_fields:
  "config (StartBalancerCallRetryTimerLocked ext s) = config s"
  "shutting_down (StartBalancerCallRetryTimerLocked ext s) = shutting_down s"
  "lb_channel (StartBalancerCallRetryTimerLocked ext s) = lb_channel s"
  "lb_calld (StartBalancerCallRetryTimerLocked ext s) = lb_calld s"
  "calls (StartBalancerCallRetryTimerLocked ext s) = calls s"
  "lb_serverlist (StartBalancerCallRetryTimerLocked ext s) = lb_serverlist s"
  "fallback_mode (StartBalancerCallRetryTimerLocked ext s) = fallback_mode s"
  "fallback_at_startup_checks_pending (StartBalancerCallRetryTimerLocked ext s)
     = fallback_at_startup_checks_pending s"
  "lb_fallback_timer_handle (StartBalancerCallRetryTimerLocked ext s) = lb_fallback_timer_handle s"
  "child_policy (StartBalancerCallRetryTimerLocked ext s) = child_policy s"
  "lb_call_retry_timer_handle (StartBalancerCallRetryTimerLocked ext s)
     = Some (fst (NextAttemptDelay ext (lb_call_backoff s)))"
  by (simp_all add: StartBalancerCallRetryTimerLocked_def Let_def emit_def)

lemma restart_good:
  assumes i4: "policy_inv s4" and h: "lb_channel s4 \<noteq> None" "config s4 \<noteq> None"
    "\<not> shutting_down s4" "lb_calld s4 = None" "\<not> fallback_at_startup_checks_pending s4"
  shows "good (if shutting_down s4 then Inl CheckFailed
                    else
                      let s5 = emit ReresolutionRequested s4
                      in if seen_initial_response (calls s5 this)
                         then StartBalancerCallLocked ext
                                (s5\<lparr>lb_call_backoff := Reset ext (lb_call_backoff s5)\<rparr>)
                         else Inr (StartBalancerCallRetryTimerLocked ext s5))"
proof (cases "seen_initial_response (calls s4 this)")
  case True
  define s6 where "s6 = (emit ReresolutionRequested s4)
                          \<lparr>lb_call_backoff := Reset ext (lb_call_backoff s4)\<rparr>"
  have i6: "policy_inv s6" using i4 by (simp add: policy_inv_def s6_def)
  from h obtain s' where c: "StartBalancerCallLocked ext s6 = Inr s'"
    using StartCall_ok [of s6 ext] by (auto simp: s6_def)
  have "policy_inv s'" by (rule StartCall_inv [OF i6 c]) (simp add: s6_def h)
  with c True h show ?thesis by (simp add: Let_def s6_def)
next
  case False
  have "policy_inv (StartBalancerCallRetryTimerLocked ext (emit ReresolutionRequested s4))"
    using i4 h by (auto simp: policy_inv_def StartRetryTimer_fields)
  with False h show ?thesis by (simp add: Let_def)
qed

lemma OnBalancerStatusReceived_good:
  assumes inv: "policy_inv s"
  shows "good (OnBalancerStatusReceivedLocked ext this s)"
proof (cases "Some this = lb_calld s")
  case False
  with inv show ?thesis by (simp add: OnBalancerStatusReceivedLocked_def)
next
  case True
  with inv have h: "lb_channel s \<noteq> None" "config s \<noteq> None" "\<not> shutting_down s"
    by (auto simp: policy_inv_def)
  define s1 where "s1 = emit (BalancerCallOrphaned this) (s\<lparr>lb_calld := None\<rparr>)"
  have i1: "policy_inv s1" using inv by (simp add: policy_inv_def s1_def)
  have f1: "lb_channel s1 = lb_channel s" "config s1 = config s"
    "shutting_down s1 = shutting_down s" "lb_calld s1 = None" "calls s1 = calls s"
    "fallback_at_startup_checks_pending s1 = fallback_at_startup_checks_pending s"
    "lb_fallback_timer_handle s1 = lb_fallback_timer_handle s"
    by (simp_all add: s1_def)
  let ?first = "if fallback_at_startup_checks_pending s1
                then if seen_serverlist (calls s1 this) then Inl CheckFailed
                     else seq (CancelFallbackTimer
                                 (s1\<lparr>fallback_at_startup_checks_pending := False\<rparr>))
                            (\<lambda>s2. seq (CancelBalancerChannelConnectivityWatchLocked s2)
                                     (\<lambda>s3. CreateOrUpdateChildPolicyLocked
                                              (s3\<lparr>fallback_mode := True\<rparr>)))
                else MaybeEnterFallbackModeAfterStartup s1"
  have first: "\<exists>s4. ?first = Inr s4 \<and> policy_inv s4 \<and> lb_channel s4 \<noteq> None \<and>
                 config s4 \<noteq> None \<and> \<not> shutting_down s4 \<and> lb_calld s4 = None \<and>
                 \<not> fallback_at_startup_checks_pending s4"
  proof (cases "fallback_at_startup_checks_pending s")
    case False
    from MaybeEnter_ok [OF i1] h obtain s4 where m: "MaybeEnterFallbackModeAfterStartup s1 = Inr s4"
      by (auto simp: f1)
    have "policy_inv s4" by (rule MaybeEnter_inv [OF i1 m]) (simp add: f1 h)
    with m False MaybeEnter_fields [OF m] h show ?thesis by (simp add: f1)
  next
    case p: True
    with inv True h have ns: "\<not> seen_serverlist (calls s this)"
      and th: "lb_fallback_timer_handle s \<noteq> None"
      by (auto simp: policy_inv_def)
    define t where "t = s1\<lparr>fallback_at_startup_checks_pending := False,
                          effects := effects s1 @ [FallbackTimerCancelled, ConnectivityWatcherRemoved],
                          fallback_mode := True\<rparr>"
    have it: "policy_inv t" using i1 by (simp add: policy_inv_def t_def)
    from h obtain s4 where c: "CreateOrUpdateChildPolicyLocked t = Inr s4"
      using CreateOrUpdate_ok [of t] by (auto simp: t_def f1)
    have i4: "policy_inv s4" by (rule CreateOrUpdate_inv [OF it c]) (simp_all add: t_def f1 h)
    have "?first = Inr s4"
      using p ns th h c
      by (simp add: f1 seq_def CancelFallbackTimer_def
                    CancelBalancerChannelConnectivityWatchLocked_def emit_def t_def
               split: option.splits)
    with i4 CreateOrUpdate_fields [OF c] h show ?thesis by (simp add: t_def f1)
  qed
  then obtain s4 where s4: "?first = Inr s4" "policy_inv s4" "lb_channel s4 \<noteq> None"
    "config s4 \<noteq> None" "\<not> shutting_down s4" "lb_calld s4 = None"
    "\<not> fallback_at_startup_checks_pending s4" by blast
  have "good (seq ?first
             (\<lambda>s4. if shutting_down s4 then Inl CheckFailed
                    else
                      let s5 = emit ReresolutionRequested s4
                      in if seen_initial_response (calls s5 this)
                         then StartBalancerCallLocked ext
                                (s5\<lparr>lb_call_backoff := Reset ext (lb_call_backoff s5)\<rparr>)
                         else Inr (StartBalancerCallRetryTimerLocked ext s5)))"
    unfolding s4(1) seq_Inr by (rule restart_good [OF s4(2-)])
  with True show ?thesis
    unfolding OnBalancerStatusReceivedLocked_def Let_def s1_def by simp
qed


lemma UpdateBalancerChannel_fields:
  "config (snd (UpdateBalancerChannelLocked ext s)) = config s"
  "shutting_down (snd (UpdateBalancerChannelLocked ext s)) = shutting_down s"
  "lb_calld (snd (UpdateBalancerChannelLocked ext s)) = lb_calld s"
  "calls (snd (UpdateBalancerChannelLocked ext s)) = calls s"
  "lb_serverlist (snd (UpdateBalancerChannelLocked ext s)) = lb_serverlist s"
  "lb_call_retry_timer_handle (snd (UpdateBalancerChannelLocked ext s)) = lb_call_retry_timer_handle s"
  "fallback_mode (snd (UpdateBalancerChannelLocked ext s)) = fallback_mode s"
  "fallback_at_startup_checks_pending (snd (UpdateBalancerChannelLocked ext s))
     = fallback_at_startup_checks_pending s"
  "lb_fallback_timer_handle (snd (UpdateBalancerChannelLocked ext s)) = lb_fallback_timer_handle s"
  "child_policy (snd (UpdateBalancerChannelLocked ext s)) = child_policy s"
  "lb_channel (snd (UpdateBalancerChannelLocked ext s))
     = (if lb_channel s = None then Some (''fake:///'' @ GetAuthority ext) else lb_channel s)"
  by (simp_all add: UpdateBalancerChannelLocked_def Let_def emit_def)

lemma UpdateLocked_good:
  assumes inv: "policy_inv s" and cfg: "update_config update \<noteq> None"
  shows "\<exists>status s'. UpdateLocked ext update s = Inr (status, s') \<and> policy_inv s'"
proof -
  define s1 where "s1 = s\<lparr>config := update_config update,
                      args := update_args update,
                      fallback_backend_addresses :=
                        (case update_addresses update of
                           Inl st \<Rightarrow> Inl st
                         | Inr it \<Rightarrow> Inr (NullLbTokenEndpointIterator it)),
                      resolution_note := update_resolution_note update\<rparr>"
  define s2 where "s2 = snd (UpdateBalancerChannelLocked ext s1)"
  have f2: "config s2 = update_config update" "shutting_down s2 = shutting_down s"
    "lb_calld s2 = lb_calld s" "calls s2 = calls s" "lb_serverlist s2 = lb_serverlist s"
    "lb_call_retry_timer_handle s2 = lb_call_retry_timer_handle s"
    "fallback_mode s2 = fallback_mode s"
    "fallback_at_startup_checks_pending s2 = fallback_at_startup_checks_pending s"
    "lb_fallback_timer_handle s2 = lb_fallback_timer_handle s"
    "child_policy s2 = child_policy s" "lb_channel s2 \<noteq> None"
    "lb_channel s \<noteq> None \<Longrightarrow> lb_channel s2 = lb_channel s"
    by (simp_all add: s2_def UpdateBalancerChannel_fields s1_def)
  have i2: "policy_inv s2"
    using inv cfg unfolding policy_inv_def f2(1-10) using f2(11) by blast
  have "\<exists>s3. (if child_policy s2 then CreateOrUpdateChildPolicyLocked s2 else Inr s2) = Inr s3 \<and>
          policy_inv s3 \<and> config s3 = config s2 \<and> shutting_down s3 = shutting_down s2 \<and>
          lb_channel s3 = lb_channel s2 \<and> lb_calld s3 = lb_calld s2 \<and>
          lb_serverlist s3 = lb_serverlist s2 \<and>
          fallback_at_startup_checks_pending s3 = fallback_at_startup_checks_pending s2"
  proof (cases "child_policy s2")
    case False
    with i2 show ?thesis by simp
  next
    case True
    with i2 have p: "fallback_mode s2 \<or> lb_serverlist s2 \<noteq> None" "config s2 \<noteq> None"
      by (auto simp: policy_inv_def)
    then obtain s3 where c: "CreateOrUpdateChildPolicyLocked s2 = Inr s3"
      using CreateOrUpdate_ok [of s2] by auto
    from CreateOrUpdate_inv [OF i2 c p] CreateOrUpdate_fields [OF c] c True
    show ?thesis by simp
  qed
  then obtain s3 where
    a: "(if child_policy s2 then CreateOrUpdateChildPolicyLocked s2 else Inr s2) = Inr s3"
    and i3: "policy_inv s3"
    and f3: "config s3 = config s2" "shutting_down s3 = shutting_down s2"
      "lb_channel s3 = lb_channel s2" "lb_calld s3 = lb_calld s2"
      "lb_serverlist s3 = lb_serverlist s2"
      "fallback_at_startup_checks_pending s3 = fallback_at_startup_checks_pending s2"
    by blast
  show ?thesis
  proof (cases "lb_channel s = None")
    case False
    then obtain c0 where "lb_channel s = Some c0" by auto
    then have "UpdateLocked ext update s = Inr (fst (UpdateBalancerChannelLocked ext s1), s3)"
      using cfg a
      unfolding UpdateLocked_def Let_def s1_def [symmetric] s2_def [symmetric]
      by simp
    with i3 show ?thesis by blast
  next
    case True
    with inv have pre: "lb_calld s = None" "\<not> shutting_down s \<longrightarrow> lb_serverlist s = None"
      by (auto simp: policy_inv_def)
    define s4 where
      "s4 = emit ConnectivityWatcherAdded
              (emit (FallbackTimerStarted (fallback_at_startup_timeout s3))
                 (s3\<lparr>fallback_at_startup_checks_pending := True,
                     lb_fallback_timer_handle := Some (fallback_at_startup_timeout s3)\<rparr>))"
    from f2 f3 obtain ch where ch: "lb_channel s3 = Some ch" by auto
    have f4: "lb_channel s4 = Some ch" "config s4 = update_config update"
      "shutting_down s4 = shutting_down s" "lb_calld s4 = None"
      "lb_serverlist s4 = lb_serverlist s"
      by (simp_all add: s4_def ch f3 f2 pre)
    have i4: "policy_inv s4"
      using i3 cfg pre ch unfolding s4_def policy_inv_emit
      by (auto simp: policy_inv_def f3 f2)
    from f4 cfg obtain s5 where c: "StartBalancerCallLocked ext s4 = Inr s5"
      using StartCall_ok [of s4 ext] by auto
    have i5: "policy_inv s5"
      by (rule StartCall_inv [OF i4 c]) (use pre f4 in auto)
    have "UpdateLocked ext update s = Inr (fst (UpdateBalancerChannelLocked ext s1), s5)"
      using cfg a True c ch
      unfolding UpdateLocked_def Let_def s1_def [symmetric] s2_def [symmetric]
      by (simp add: s4_def [symmetric])
    with i5 show ?thesis by blast
  qed
qed


lemma ShutdownLocked_good:
  assumes inv: "policy_inv s"
  shows "good (ShutdownLocked s)"
proof -
  define s1 where "s1 = (case lb_calld s of
                  None \<Rightarrow> s\<lparr>shutting_down := True\<rparr>
                | Some c \<Rightarrow> emit (BalancerCallOrphaned c)
                             (s\<lparr>shutting_down := True, lb_calld := None\<rparr>))"
  define s2 where
    "s2 = (if lb_call_retry_timer_handle s1 \<noteq> None then emit RetryTimerCancelled s1 else s1)"
  have f2: "shutting_down s2" "lb_calld s2 = None"
    "fallback_at_startup_checks_pending s2 = fallback_at_startup_checks_pending s"
    "lb_fallback_timer_handle s2 = lb_fallback_timer_handle s" "lb_channel s2 = lb_channel s"
    by (simp_all add: s2_def s1_def split: option.splits)
  have "\<exists>s3. (if fallback_at_startup_checks_pending s2
              then seq (CancelFallbackTimer (s2\<lparr>fallback_at_startup_checks_pending := False\<rparr>))
                     CancelBalancerChannelConnectivityWatchLocked
              else Inr s2) = Inr s3 \<and>
          shutting_down s3 \<and> lb_calld s3 = None \<and> \<not> fallback_at_startup_checks_pending s3"
  proof (cases "fallback_at_startup_checks_pending s")
    case False
    with f2 show ?thesis by simp
  next
    case True
    with inv have "lb_fallback_timer_handle s2 \<noteq> None" "lb_channel s2 \<noteq> None"
      by (auto simp: policy_inv_def f2)
    from cancel_checks_eq [OF this] True f2 show ?thesis by simp
  qed
  then obtain s3 where
    a: "(if fallback_at_startup_checks_pending s2
              then seq (CancelFallbackTimer (s2\<lparr>fallback_at_startup_checks_pending := False\<rparr>))
                     CancelBalancerChannelConnectivityWatchLocked
              else Inr s2) = Inr s3"
    and f3: "shutting_down s3" "lb_calld s3 = None" "\<not> fallback_at_startup_checks_pending s3"
    by blast
  define s4 where
    "s4 = (if child_policy s3 then emit ChildPolicyReset (s3\<lparr>child_policy := False\<rparr>) else s3)"
  define s5 where
    "s5 = (if lb_channel s4 \<noteq> None then emit BalancerChannelReset (s4\<lparr>lb_channel := None\<rparr>) else s4)"
  have f5: "shutting_down s5" "lb_calld s5 = None" "\<not> fallback_at_startup_checks_pending s5"
    "\<not> child_policy s5"
    by (simp_all add: s5_def s4_def f3)
  have "ShutdownLocked s = Inr s5"
    unfolding ShutdownLocked_def Let_def s1_def [symmetric] s2_def [symmetric] a seq_Inr
      s4_def [symmetric] s5_def [symmetric]
    by (rule refl)
  moreover have "policy_inv s5" using f5 by (simp add: policy_inv_def)
  ultimately show ?thesis by simp
qed

lemma step_good:
  assumes inv: "policy_inv s" and en: "enabled ev s"
  shows "good (step ext ev s)"
proof (cases ev)
  case (Update update)
  with en have "update_config update \<noteq> None" by simp
  from UpdateLocked_good [OF inv this, of ext] Update show ?thesis
    by (auto simp: good_iff)
next
  case Shutdown
  with inv show ?thesis by (simp add: ShutdownLocked_good)
next
  case (BalancerMessageReceived c payload)
  with inv show ?thesis by (simp add: OnBalancerMessageReceived_good)
next
  case (BalancerStatusReceived c)
  with inv show ?thesis by (simp add: OnBalancerStatusReceived_good)
next
  case FallbackTimer
  with OnFallbackTimer_inv [OF inv] show ?thesis by (simp add: good_iff)
next
  case BalancerCallRetryTimer
  with en RetryTimer_inv [OF inv, of ext] show ?thesis by (simp add: good_iff)
next
  case (ChildStateUpdate st status picker)
  with en UpdateState_inv [OF inv, of st status picker] show ?thesis by (simp add: good_iff)
next
  case (BalancerChannelStateChange st)
  with OnConnectivity_inv [OF inv, of st] show ?thesis by (simp add: good_iff)
qed

lemma new_policy_inv: "policy_inv (new_policy backoff timeout)"
  by (simp add: policy_inv_def new_policy_def)

lemma reachable_inv: "reachable ext s \<Longrightarrow> policy_inv s"
proof (induction rule: reachable.induct)
  case (reachable_new backoff timeout)
  show ?case by (rule new_policy_inv)
next
  case (reachable_step s ev s')
  from step_good [OF reachable_step.IH reachable_step.hyps(2), of ext] reachable_step.hyps(3)
  show ?case by simp
qed

lemma reachable_never_crashes:
  "reachable ext s \<Longrightarrow> enabled ev s \<Longrightarrow> \<exists>s'. step ext ev s = Inr s' \<and> reachable ext s'"
  using step_good [OF reachable_inv, of ext s ev]
  by (auto simp: good_iff intro: reachable_step)

lemma run_reachable:
  "reachable ext s \<Longrightarrow> run ext evs s = Some s' \<Longrightarrow> reachable ext s'"
proof (induction evs arbitrary: s)
  case Nil
  then show ?case by simp
next
  case (Cons ev evs)
  then show ?case
    by (auto split: if_splits sum.splits intro: reachable_step)
qed

section \<open>Updates\<close>

lemma child_updates_append [simp]:
  "child_updates (xs @ ys) = child_updates xs @ child_updates ys"
proof (induction xs)
  case Nil
  show ?case by simp
next
  case (Cons e xs)
  then show ?case by (cases e) simp_all
qed


lemma effects_emit [simp]: "effects (emit e s) = effects s @ [e]"
  by (simp add: emit_def)







section \<open>Fallback after startup\<close>

lemma CreateOrUpdate_updates:
  assumes "CreateOrUpdateChildPolicyLocked s = Inr s'"
  shows "if shutting_down s then s' = s
         else \<exists>u. child_updates (effects s') = child_updates (effects s) @ [u] \<and>
                update_addresses u =
                  (if fallback_mode s then fallback_backend_addresses s
                   else Inr (GetServerAddressList (the (lb_serverlist s))
                               (case lb_calld s of None \<Rightarrow> None
                                | Some c \<Rightarrow> client_stats (calls s c))))"
  using assms
  by (auto simp: CreateOrUpdateChildPolicyLocked_def seq_Inr_iff emit_def Let_def
           split: if_splits option.splits sum.splits prod.splits)

lemma MaybeEnter_cases:
  assumes "\<not> shutting_down s" and "config s \<noteq> None"
  shows "\<exists>s'. MaybeEnterFallbackModeAfterStartup s = Inr s' \<and>
           (if \<not> fallback_mode s \<and> \<not> fallback_at_startup_checks_pending s \<and>
               (\<forall>c. lb_calld s = Some c \<longrightarrow> \<not> seen_serverlist (calls s c)) \<and>
               \<not> child_policy_ready s
            then fallback_mode s' \<and>
                 (\<exists>u. child_updates (effects s') = child_updates (effects s) @ [u] \<and>
                      update_addresses u = fallback_backend_addresses s)
            else s' = s)"
proof (cases "\<not> fallback_mode s \<and> \<not> fallback_at_startup_checks_pending s \<and>
               (\<forall>c. lb_calld s = Some c \<longrightarrow> \<not> seen_serverlist (calls s c)) \<and>
               \<not> child_policy_ready s")
  case False
  then show ?thesis
    by (auto simp: MaybeEnterFallbackModeAfterStartup_def split: option.splits)
next
  case True
  from assms obtain s' where c: "CreateOrUpdateChildPolicyLocked (s\<lparr>fallback_mode := True\<rparr>) = Inr s'"
    using CreateOrUpdate_ok [of "s\<lparr>fallback_mode := True\<rparr>"] by auto
  from True have "MaybeEnterFallbackModeAfterStartup s = Inr s'"
    by (auto simp: MaybeEnterFallbackModeAfterStartup_def c split: option.splits)
  with True CreateOrUpdate_updates [OF c] CreateOrUpdate_fields [OF c] assms show ?thesis
    by auto
qed


text \<open>
  C4. The check after startup, \<open>MaybeEnterFallbackModeAfterStartup\<close>, in a policy
  that is not shutting down: it enters fallback mode, that is, it sets
  \<open>fallback_mode\<close> and hands the child policy one more update, made of the fallback
  addresses, if and only if the policy is not in fallback mode already, the startup
  checks are not pending, there is no current balancer call or the current one has
  seen no serverlist, and the child policy is not READY; otherwise it changes
  nothing. The check runs at two places, and there the same holds of the whole
  callback: in the child's state update, after the new state was recorded (so that
  the state that counts is the new one), and at the end of the current balancer call
  when the startup checks are not pending, after the call was dropped (so that there
  is no current call any more).
\<close>

theorem fallback_after_startup:
  "(\<not> shutting_down s \<and> config s \<noteq> None \<longrightarrow>
      (\<exists>s'. MaybeEnterFallbackModeAfterStartup s = Inr s' \<and>
         (if \<not> fallback_mode s \<and> \<not> fallback_at_startup_checks_pending s \<and>
             (\<forall>c. lb_calld s = Some c \<longrightarrow> \<not> seen_serverlist (calls s c)) \<and>
             \<not> child_policy_ready s
          then fallback_mode s' \<and>
               (\<exists>u. child_updates (effects s') = child_updates (effects s) @ [u] \<and>
                    update_addresses u = fallback_backend_addresses s)
          else s' = s))) \<and>
   (reachable ext s \<and> child_policy s \<longrightarrow>
      (\<exists>s'. UpdateState state status picker s = Inr s' \<and>
         child_policy_ready s' = (state = GRPC_CHANNEL_READY) \<and>
         (if \<not> fallback_mode s \<and> \<not> fallback_at_startup_checks_pending s \<and>
             (\<forall>c. lb_calld s = Some c \<longrightarrow> \<not> seen_serverlist (calls s c)) \<and>
             state \<noteq> GRPC_CHANNEL_READY
          then fallback_mode s' \<and>
               (\<exists>u. child_updates (effects s') = child_updates (effects s) @ [u] \<and>
                    update_addresses u = fallback_backend_addresses s)
          else fallback_mode s' = fallback_mode s \<and>
               child_updates (effects s') = child_updates (effects s)))) \<and>
   (reachable ext s \<and> lb_calld s = Some this \<and> \<not> fallback_at_startup_checks_pending s \<longrightarrow>
      (\<exists>s'. OnBalancerStatusReceivedLocked ext this s = Inr s' \<and>
         (if \<not> fallback_mode s \<and> \<not> child_policy_ready s
          then fallback_mode s' \<and>
               (\<exists>u. child_updates (effects s') = child_updates (effects s) @ [u] \<and>
                    update_addresses u = fallback_backend_addresses s)
          else fallback_mode s' = fallback_mode s \<and>
               child_updates (effects s') = child_updates (effects s))))"
proof (intro conjI impI)
  assume "\<not> shutting_down s \<and> config s \<noteq> None"
  then show "\<exists>s'. MaybeEnterFallbackModeAfterStartup s = Inr s' \<and>
         (if \<not> fallback_mode s \<and> \<not> fallback_at_startup_checks_pending s \<and>
             (\<forall>c. lb_calld s = Some c \<longrightarrow> \<not> seen_serverlist (calls s c)) \<and>
             \<not> child_policy_ready s
          then fallback_mode s' \<and>
               (\<exists>u. child_updates (effects s') = child_updates (effects s) @ [u] \<and>
                    update_addresses u = fallback_backend_addresses s)
          else s' = s)"
    using MaybeEnter_cases [of s] by simp
next
  assume a: "reachable ext s \<and> child_policy s"
  then have inv: "policy_inv s" by (auto intro: reachable_inv)
  with a have h: "\<not> shutting_down s" "config s \<noteq> None" by (auto simp: policy_inv_def)
  define s0 where "s0 = s\<lparr>child_policy_ready := (state = GRPC_CHANNEL_READY)\<rparr>"
  have h0: "\<not> shutting_down s0" "config s0 \<noteq> None" using h by (simp_all add: s0_def)
  from MaybeEnter_cases [OF h0] obtain s1 where
    m: "MaybeEnterFallbackModeAfterStartup s0 = Inr s1" and
    c: "if \<not> fallback_mode s0 \<and> \<not> fallback_at_startup_checks_pending s0 \<and>
               (\<forall>c. lb_calld s0 = Some c \<longrightarrow> \<not> seen_serverlist (calls s0 c)) \<and>
               \<not> child_policy_ready s0
            then fallback_mode s1 \<and>
                 (\<exists>u. child_updates (effects s1) = child_updates (effects s0) @ [u] \<and>
                      update_addresses u = fallback_backend_addresses s0)
            else s1 = s0"
    by blast
  define sl where "sl = (if state = GRPC_CHANNEL_READY \<or>
                          (case lb_serverlist s1 of None \<Rightarrow> False
                           | Some l \<Rightarrow> ContainsAllDropEntries l)
                       then lb_serverlist s1 else None)"
  define stats where "stats = (case lb_calld s1 of None \<Rightarrow> None
                          | Some c \<Rightarrow> client_stats (calls s1 c))"
  have u: "UpdateState state status picker s =
             Inr (emit (ParentStateUpdated state status sl picker stats) s1)"
    using h m unfolding UpdateState_def Let_def s0_def [symmetric] sl_def stats_def by simp
  have r: "child_policy_ready s1 = (state = GRPC_CHANNEL_READY)"
    using c m by (auto simp: s0_def MaybeEnterFallbackModeAfterStartup_def
                       split: if_splits dest!: CreateOrUpdate_fields)
  show "\<exists>s'. UpdateState state status picker s = Inr s' \<and>
         child_policy_ready s' = (state = GRPC_CHANNEL_READY) \<and>
         (if \<not> fallback_mode s \<and> \<not> fallback_at_startup_checks_pending s \<and>
             (\<forall>c. lb_calld s = Some c \<longrightarrow> \<not> seen_serverlist (calls s c)) \<and>
             state \<noteq> GRPC_CHANNEL_READY
          then fallback_mode s' \<and>
               (\<exists>u. child_updates (effects s') = child_updates (effects s) @ [u] \<and>
                    update_addresses u = fallback_backend_addresses s)
          else fallback_mode s' = fallback_mode s \<and>
               child_updates (effects s') = child_updates (effects s))"
    unfolding u using c r by (auto simp: s0_def split: if_splits)
next
  assume a: "reachable ext s \<and> lb_calld s = Some this \<and> \<not> fallback_at_startup_checks_pending s"
  then have inv: "policy_inv s" by (auto intro: reachable_inv)
  with a have h: "\<not> shutting_down s" "config s \<noteq> None" "lb_channel s \<noteq> None"
    by (auto simp: policy_inv_def)
  define s1 where "s1 = emit (BalancerCallOrphaned this) (s\<lparr>lb_calld := None\<rparr>)"
  have h1: "\<not> shutting_down s1" "config s1 \<noteq> None" using h by (simp_all add: s1_def)
  from MaybeEnter_cases [OF h1] obtain s4 where
    m: "MaybeEnterFallbackModeAfterStartup s1 = Inr s4" and
    c: "if \<not> fallback_mode s1 \<and> \<not> fallback_at_startup_checks_pending s1 \<and>
               (\<forall>c. lb_calld s1 = Some c \<longrightarrow> \<not> seen_serverlist (calls s1 c)) \<and>
               \<not> child_policy_ready s1
            then fallback_mode s4 \<and>
                 (\<exists>u. child_updates (effects s4) = child_updates (effects s1) @ [u] \<and>
                      update_addresses u = fallback_backend_addresses s1)
            else s4 = s1"
    by blast
  have c': "if \<not> fallback_mode s \<and> \<not> child_policy_ready s
            then fallback_mode s4 \<and>
                 (\<exists>u. child_updates (effects s4) = child_updates (effects s) @ [u] \<and>
                      update_addresses u = fallback_backend_addresses s)
            else fallback_mode s4 = fallback_mode s \<and>
                 child_updates (effects s4) = child_updates (effects s)"
    using c a by (auto simp: s1_def emit_def split: if_splits)
  from MaybeEnter_fields [OF m] h a
  have f4: "\<not> shutting_down s4" "config s4 \<noteq> None" "lb_channel s4 \<noteq> None" "lb_calld s4 = None"
    by (simp_all add: s1_def)
  define s5 where "s5 = emit ReresolutionRequested s4"
  have "\<exists>s'. (if seen_initial_response (calls s5 this)
                         then StartBalancerCallLocked ext
                                (s5\<lparr>lb_call_backoff := Reset ext (lb_call_backoff s5)\<rparr>)
                         else Inr (StartBalancerCallRetryTimerLocked ext s5)) = Inr s' \<and>
              fallback_mode s' = fallback_mode s4 \<and>
              child_updates (effects s') = child_updates (effects s4)"
  proof (cases "seen_initial_response (calls s5 this)")
    case False
    then show ?thesis
      by (simp add: StartRetryTimer_fields s5_def StartBalancerCallRetryTimerLocked_def Let_def)
  next
    case True
    with f4 show ?thesis
      by (auto simp: StartBalancerCallLocked_def s5_def Let_def)
  qed
  then obtain s' where
    r: "(if seen_initial_response (calls s5 this)
                         then StartBalancerCallLocked ext
                                (s5\<lparr>lb_call_backoff := Reset ext (lb_call_backoff s5)\<rparr>)
                         else Inr (StartBalancerCallRetryTimerLocked ext s5)) = Inr s'"
    and f: "fallback_mode s' = fallback_mode s4"
      "child_updates (effects s') = child_updates (effects s4)"
    by blast
  have p1: "\<not> fallback_at_startup_checks_pending s1" using a by (simp add: s1_def)
  have "OnBalancerStatusReceivedLocked ext this s = Inr s'"
    using a f4 r
    unfolding OnBalancerStatusReceivedLocked_def Let_def s1_def [symmetric]
    by (simp add: p1 m s5_def [symmetric] split: if_splits)
  with c' f show "\<exists>s'. OnBalancerStatusReceivedLocked ext this s = Inr s' \<and>
         (if \<not> fallback_mode s \<and> \<not> child_policy_ready s
          then fallback_mode s' \<and>
               (\<exists>u. child_updates (effects s') = child_updates (effects s) @ [u] \<and>
                    update_addresses u = fallback_backend_addresses s)
          else fallback_mode s' = fallback_mode s \<and>
               child_updates (effects s') = child_updates (effects s))"
    by (auto split: if_splits)
qed


lemmas example_defs =
  example_policy_def example_externals_def example_update_def new_policy_def
  UpdateLocked_def UpdateBalancerChannelLocked_def ExtractBalancerAddresses_def
  StartBalancerCallLocked_def OnBalancerMessageReceivedLocked_def OnSERVERLIST_def
  OnFALLBACK_def OnINITIAL_def Serverlist_eq_def CreateOrUpdateChildPolicyLocked_def
  CreateChildPolicyArgsLocked_def CancelFallbackTimer_def
  CancelBalancerChannelConnectivityWatchLocked_def OnBalancerStatusReceivedLocked_def
  MaybeEnterFallbackModeAfterStartup_def UpdateState_def OnFallbackTimerLocked_def
  StartBalancerCallRetryTimerLocked_def OnBalancerCallRetryTimerLocked_def
  OnConnectivityStateChange_def ShutdownLocked_def
  emit_def Let_def seq_def initial_call_def


text \<open>
  An example: after the first update and a serverlist, the check changes nothing
  while the call that has seen the serverlist is current; the end of that call
  enters fallback mode, the child being not READY; and when the child was READY at
  the end of the call, its next state update, to TRANSIENT_FAILURE, enters fallback
  mode.
\<close>

theorem fallback_after_startup_witness:
  "(\<exists>s s'. run example_externals
              [Update example_update, BalancerMessageReceived 0 (Some [1, 5])] example_policy
              = Some s \<and>
            \<not> fallback_mode s \<and>
            OnBalancerStatusReceivedLocked example_externals 0 s = Inr s' \<and> fallback_mode s' \<and>
            length (child_updates (effects s')) = Suc (length (child_updates (effects s))) \<and>
            MaybeEnterFallbackModeAfterStartup s = Inr s) \<and>
   (\<exists>s s'. run example_externals
              [Update example_update, BalancerMessageReceived 0 (Some [1, 5]),
               ChildStateUpdate GRPC_CHANNEL_READY OkStatus 0, BalancerStatusReceived 0]
              example_policy = Some s \<and>
            \<not> fallback_mode s \<and>
            UpdateState GRPC_CHANNEL_TRANSIENT_FAILURE (UnavailableError []) 1 s = Inr s' \<and>
            fallback_mode s' \<and>
            length (child_updates (effects s')) = Suc (length (child_updates (effects s))))"
proof -
  have r0: "reachable example_externals example_policy"
    unfolding example_policy_def by (rule reachable_new)
  obtain s where s: "run example_externals
          [Update example_update, BalancerMessageReceived 0 (Some [1, 5])] example_policy = Some s"
    and fs: "lb_calld s = Some 0" "\<not> fallback_at_startup_checks_pending s" "\<not> fallback_mode s"
      "\<not> child_policy_ready s" "config s \<noteq> None" "\<not> shutting_down s"
      "seen_serverlist (calls s 0)"
    by (simp add: example_defs)
  obtain t where t: "run example_externals
              [Update example_update, BalancerMessageReceived 0 (Some [1, 5]),
               ChildStateUpdate GRPC_CHANNEL_READY OkStatus 0, BalancerStatusReceived 0]
              example_policy = Some t"
    and ft: "lb_calld t = None" "\<not> fallback_at_startup_checks_pending t" "\<not> fallback_mode t"
      "child_policy t"
    by (simp add: example_defs)
  note rs = run_reachable [OF r0 s]
  note rt = run_reachable [OF r0 t]
  from fallback_after_startup [of s example_externals GRPC_CHANNEL_READY OkStatus 0 0] rs fs
  have a: "\<exists>s'. OnBalancerStatusReceivedLocked example_externals 0 s = Inr s' \<and> fallback_mode s' \<and>
            length (child_updates (effects s')) = Suc (length (child_updates (effects s)))"
    and b: "MaybeEnterFallbackModeAfterStartup s = Inr s"
    by auto
  from fallback_after_startup
         [of t example_externals GRPC_CHANNEL_TRANSIENT_FAILURE "UnavailableError []" 1 0] rt ft
  have c: "\<exists>s'. UpdateState GRPC_CHANNEL_TRANSIENT_FAILURE (UnavailableError []) 1 t = Inr s' \<and>
            fallback_mode s' \<and>
            length (child_updates (effects s')) = Suc (length (child_updates (effects t)))"
    by auto
  from s fs a b t ft c show ?thesis by blast
qed

end
